(* ===== verification/Prelude.thy ===== *)
theory Prelude
  imports Main
begin

text \<open>
  Shared vocabulary of the development: the JavaScript string values that
  \<open>process.env\<close> yields and the operators the script applies to them
  (\<open>||\<close>, \<open>!\<close>, template-literal interpolation), the console, and an
  effect type for the script's async functions.  An async function is a state
  transformer whose result is an \<open>outcome\<close>: a value, a thrown error
  (a rejected promise), or a call of \<open>process.exit\<close>, which ends the
  process at once.  \<open>js_bind\<close> is \<open>await\<close> in sequence: the rest of
  the function runs only after a normal completion.
\<close>

named_theorems js_simps "unfolding rules of the effect combinators"

section \<open>Environment values\<close>

text \<open>\<open>process.env\<close>: every variable is a string or \<open>undefined\<close>.\<close>

type_synonym process_env = "string \<Rightarrow> string option"

text \<open>A string is falsy in JavaScript exactly when it is empty; \<open>undefined\<close> is falsy.\<close>

definition js_truthy :: "string option \<Rightarrow> bool" where
  "js_truthy v = (case v of None \<Rightarrow> False | Some s \<Rightarrow> s \<noteq> [])"

text \<open>\<open>v || d\<close> on a string or undefined \<open>v\<close> and a string literal \<open>d\<close>.\<close>

definition js_or :: "string option \<Rightarrow> string \<Rightarrow> string" where
  "js_or v d = (case v of None \<Rightarrow> d | Some s \<Rightarrow> if s = [] then d else s)"

text \<open>\<open>`${v}`\<close>: interpolation of a string or of \<open>undefined\<close>.\<close>

definition js_template :: "string option \<Rightarrow> string" where
  "js_template v = (case v of None \<Rightarrow> ''undefined'' | Some s \<Rightarrow> s)"

section \<open>Console\<close>

text \<open>\<open>console.log\<close> writes to standard output, \<open>console.error\<close> to standard error.\<close>

datatype stream = Stdout | Stderr

record console_state =
  console :: "(stream \<times> string) list"

section \<open>Outcomes of async code\<close>

datatype ('e, 'a) outcome =
    Return 'a
  | Raise 'e
  | ProcessExit int

type_synonym ('s, 'e, 'a) js = "'s \<Rightarrow> ('e, 'a) outcome \<times> 's"

definition js_return :: "'a \<Rightarrow> ('s, 'e, 'a) js" where
  "js_return a = (\<lambda>s. (Return a, s))"

definition js_bind :: "('s, 'e, 'a) js \<Rightarrow> ('a \<Rightarrow> ('s, 'e, 'b) js) \<Rightarrow> ('s, 'e, 'b) js" where
  "js_bind m f = (\<lambda>s. case m s of
       (Return a, s') \<Rightarrow> f a s'
     | (Raise e, s') \<Rightarrow> (Raise e, s')
     | (ProcessExit n, s') \<Rightarrow> (ProcessExit n, s'))"

definition js_throw :: "'e \<Rightarrow> ('s, 'e, 'a) js" where
  "js_throw e = (\<lambda>s. (Raise e, s))"

text \<open>\<open>p.catch(h)\<close>: the handler runs on a rejection; an exit is not caught.\<close>

definition js_catch :: "('s, 'e, 'a) js \<Rightarrow> ('e \<Rightarrow> ('s, 'e, 'a) js) \<Rightarrow> ('s, 'e, 'a) js" where
  "js_catch m h = (\<lambda>s. case m s of
       (Raise e, s') \<Rightarrow> h e s'
     | r \<Rightarrow> r)"

definition process_exit :: "int \<Rightarrow> ('s, 'e, 'a) js" where
  "process_exit n = (\<lambda>s. (ProcessExit n, s))"

definition console_log :: "string \<Rightarrow> ('s console_state_scheme, 'e, unit) js" where
  "console_log line = (\<lambda>s. (Return (), s\<lparr>console := console s @ [(Stdout, line)]\<rparr>))"

definition console_error :: "string \<Rightarrow> ('s console_state_scheme, 'e, unit) js" where
  "console_error line = (\<lambda>s. (Return (), s\<lparr>console := console s @ [(Stderr, line)]\<rparr>))"

section \<open>Lemmas on environment values\<close>

lemma js_truthy_simps [simp, js_simps]:
  "\<not> js_truthy None"
  "js_truthy (Some s) \<longleftrightarrow> s \<noteq> []"
  by (simp_all add: js_truthy_def)

lemma js_or_simps [simp, js_simps]:
  "js_or None d = d"
  "js_or (Some s) d = (if s = [] then d else s)"
  by (simp_all add: js_or_def)

lemma js_template_simps [simp, js_simps]:
  "js_template None = ''undefined''"
  "js_template (Some s) = s"
  by (simp_all add: js_template_def)

lemma js_truthy_iff: "js_truthy v \<longleftrightarrow> (\<exists>s. v = Some s \<and> s \<noteq> [])"
  by (cases v) auto

lemma js_or_truthy: "js_truthy v \<Longrightarrow> js_or v d = js_template v"
  by (cases v) auto

lemma js_or_falsy: "\<not> js_truthy v \<Longrightarrow> js_or v d = d"
  by (cases v) auto

lemma js_or_nonempty: "d \<noteq> [] \<Longrightarrow> js_or v d \<noteq> []"
  by (cases v) auto

section \<open>Evaluation rules\<close>

lemma js_bind_apply [js_simps]:
  "js_bind m f s =
     (case m s of
       (Return a, s') \<Rightarrow> f a s'
     | (Raise e, s') \<Rightarrow> (Raise e, s')
     | (ProcessExit n, s') \<Rightarrow> (ProcessExit n, s'))"
  by (simp add: js_bind_def)

lemma js_catch_apply [js_simps]:
  "js_catch m h s = (case m s of (Raise e, s') \<Rightarrow> h e s' | r \<Rightarrow> r)"
  by (simp add: js_catch_def)

lemma js_return_apply [simp, js_simps]: "js_return a s = (Return a, s)"
  by (simp add: js_return_def)

lemma js_throw_apply [simp, js_simps]: "js_throw e s = (Raise e, s)"
  by (simp add: js_throw_def)

lemma process_exit_apply [simp, js_simps]: "process_exit n s = (ProcessExit n, s)"
  by (simp add: process_exit_def)

lemma console_log_apply [simp, js_simps]:
  "console_log line s = (Return (), s\<lparr>console := console s @ [(Stdout, line)]\<rparr>)"
  by (simp add: console_log_def)

lemma console_error_apply [simp, js_simps]:
  "console_error line s = (Return (), s\<lparr>console := console s @ [(Stderr, line)]\<rparr>)"
  by (simp add: console_error_def)

lemma js_bind_Return [simp]: "m s = (Return a, s') \<Longrightarrow> js_bind m f s = f a s'"
  by (simp add: js_bind_def)

lemma js_bind_Raise [simp]: "m s = (Raise e, s') \<Longrightarrow> js_bind m f s = (Raise e, s')"
  by (simp add: js_bind_def)

lemma js_bind_Exit [simp]: "m s = (ProcessExit n, s') \<Longrightarrow> js_bind m f s = (ProcessExit n, s')"
  by (simp add: js_bind_def)

lemma js_catch_Raise [simp]: "m s = (Raise e, s') \<Longrightarrow> js_catch m h s = h e s'"
  by (simp add: js_catch_def)

lemma js_catch_Return [simp]: "m s = (Return a, s') \<Longrightarrow> js_catch m h s = (Return a, s')"
  by (simp add: js_catch_def)

lemma js_catch_Exit [simp]: "m s = (ProcessExit n, s') \<Longrightarrow> js_catch m h s = (ProcessExit n, s')"
  by (simp add: js_catch_def)

section \<open>Monad laws\<close>

lemma js_bind_return_left: "js_bind (js_return a) f = f a"
  by (simp add: js_bind_def fun_eq_iff)

lemma js_bind_return_right: "js_bind m js_return = m"
  by (auto simp add: js_bind_def fun_eq_iff split: prod.splits outcome.splits)

lemma js_bind_assoc: "js_bind (js_bind m f) g = js_bind m (\<lambda>a. js_bind (f a) g)"
  by (auto simp add: js_bind_def fun_eq_iff split: prod.splits outcome.splits)

end
