(* ===== verification/Sqs.thy ===== *)
theory Sqs
  imports Prelude
begin

text \<open>
  The part of \<open>@aws-sdk/client-sqs\<close> that the script uses: the client
  configuration object passed to \<open>new SQSClient\<close>, the input of
  \<open>SendMessageCommand\<close>, its output, and \<open>client.send\<close>.  The SDK is a
  library the script only calls, so \<open>client_send\<close> is modelled from its
  contract: every call is one request on the network, recorded in order in
  \<open>sent\<close>; the broker's answer to the \<open>n\<close>-th request of the run is
  \<open>broker n\<close>, an arbitrary function, so that every theorem quantifying over
  it holds for every behaviour of the broker and the transport.  An answer is
  either an acceptance carrying the optional \<open>MessageId\<close> of the SDK's
  \<open>SendMessageResult\<close>, or a fault that the returned promise rejects with.
\<close>

record aws_credentials =
  accessKeyId :: string
  secretAccessKey :: string

record sqs_client_config =
  region :: string
  endpoint :: string
  credentials :: aws_credentials

record send_message_input =
  QueueUrl :: "string option"
  MessageBody :: string

record send_message_output =
  MessageId :: "string option"

datatype sqs_fault =
    NetworkingError
  | CredentialsProviderError
  | QueueDoesNotExist
  | ServiceFault string

datatype sqs_reply =
    Accepted "string option"
  | Rejected sqs_fault

text \<open>The runtime: the console, the requests issued so far, the broker.\<close>

record runtime = console_state +
  sent :: "(sqs_client_config \<times> send_message_input) list"
  broker :: "nat \<Rightarrow> sqs_reply"

definition client_send ::
  "sqs_client_config \<Rightarrow> send_message_input \<Rightarrow> (runtime, sqs_fault, send_message_output) js" where
  "client_send cfg cmd = (\<lambda>w.
     let w' = w\<lparr>sent := sent w @ [(cfg, cmd)]\<rparr>
     in case broker w (length (sent w)) of
          Accepted mid \<Rightarrow> (Return \<lparr>MessageId = mid\<rparr>, w')
        | Rejected f \<Rightarrow> (Raise f, w'))"

text \<open>
  How \<open>console.error(err)\<close> prints a rejection: the error's name and message,
  the first line of Node's rendering of an SDK exception.
\<close>

fun render_fault :: "sqs_fault \<Rightarrow> string" where
  "render_fault NetworkingError = ''NetworkingError: connect ECONNREFUSED''"
| "render_fault CredentialsProviderError = ''CredentialsProviderError: Could not load credentials''"
| "render_fault QueueDoesNotExist = ''QueueDoesNotExist: The specified queue does not exist.''"
| "render_fault (ServiceFault m) = ''SQSServiceException: '' @ m"

lemma client_send_apply [js_simps]:
  "client_send cfg cmd w =
     (case broker w (length (sent w)) of
        Accepted mid \<Rightarrow> (Return \<lparr>MessageId = mid\<rparr>, w\<lparr>sent := sent w @ [(cfg, cmd)]\<rparr>)
      | Rejected f \<Rightarrow> (Raise f, w\<lparr>sent := sent w @ [(cfg, cmd)]\<rparr>))"
  by (simp add: client_send_def Let_def)

lemma client_send_Accepted [simp]:
  "broker w (length (sent w)) = Accepted mid \<Longrightarrow>
   client_send cfg cmd w = (Return \<lparr>MessageId = mid\<rparr>, w\<lparr>sent := sent w @ [(cfg, cmd)]\<rparr>)"
  by (simp add: client_send_apply)

lemma client_send_Rejected [simp]:
  "broker w (length (sent w)) = Rejected f \<Longrightarrow>
   client_send cfg cmd w = (Raise f, w\<lparr>sent := sent w @ [(cfg, cmd)]\<rparr>)"
  by (simp add: client_send_apply)

text \<open>Every call issues exactly one request and leaves console and broker alone.\<close>

lemma client_send_effect:
  "client_send cfg cmd w = (r, w') \<Longrightarrow>
   sent w' = sent w @ [(cfg, cmd)] \<and> console w' = console w \<and> broker w' = broker w"
  by (auto simp add: client_send_apply split: sqs_reply.splits)

lemma client_send_never_exits: "client_send cfg cmd w \<noteq> (ProcessExit n, w')"
  by (simp add: client_send_apply split: sqs_reply.splits)

end
