(* ===== verification/Config.thy ===== *)
theory Config
  imports Sqs
begin

text \<open>
  The configuration resolver: the module-level code of
  \<open>src/app-exemple/index.js\<close> that builds the \<open>SQSClient\<close> from the
  environment (lines 3--10) and reads \<open>QUEUE_URL\<close> (line 12).  Each of the
  four client settings is \<open>process.env.X || default\<close>; the queue URL has no
  default and is kept as it is, \<open>undefined\<close> included.
\<close>

definition default_region :: string where
  "default_region = ''us-east-1''"

definition default_endpoint :: string where
  "default_endpoint = ''http://addon-localstack.localstack-system.svc.cluster.local:4566''"

definition default_secret :: string where
  "default_secret = ''test''"

definition resolve_client_config :: "process_env \<Rightarrow> sqs_client_config" where
  "resolve_client_config env =
     \<lparr>region = js_or (env ''AWS_REGION'') default_region,
      endpoint = js_or (env ''AWS_ENDPOINT_URL'') default_endpoint,
      credentials =
        \<lparr>accessKeyId = js_or (env ''AWS_ACCESS_KEY_ID'') default_secret,
         secretAccessKey = js_or (env ''AWS_SECRET_ACCESS_KEY'') default_secret\<rparr>\<rparr>"

definition queue_url :: "process_env \<Rightarrow> string option" where
  "queue_url env = env ''QUEUE_URL''"

text \<open>A resolved configuration has no empty setting.\<close>

definition config_wf :: "sqs_client_config \<Rightarrow> bool" where
  "config_wf c \<longleftrightarrow>
     region c \<noteq> [] \<and> endpoint c \<noteq> [] \<and>
     accessKeyId (credentials c) \<noteq> [] \<and> secretAccessKey (credentials c) \<noteq> []"

lemma default_settings_nonempty [simp]:
  "default_region \<noteq> []" "default_endpoint \<noteq> []" "default_secret \<noteq> []"
  by (simp_all add: default_region_def default_endpoint_def default_secret_def)

text \<open>One setting: a truthy variable wins verbatim, anything else gives the default.\<close>

lemma js_or_setting:
  "js_or (env x) d = (if js_truthy (env x) then the (env x) else d)"
  by (cases "env x") auto

text \<open>
  C9. Every resolved client configuration is well formed: whatever the
  environment holds, region, endpoint and both credential parts are non-empty,
  because each \<open>||\<close> falls back to a non-empty literal.
\<close>

theorem resolve_client_config_wf: "config_wf (resolve_client_config env)"
  by (simp add: config_wf_def resolve_client_config_def js_or_nonempty)

text \<open>
  C10. An environment variable set to the empty string configures the client
  exactly as an unset one: \<open>||\<close> treats both as falsy.
\<close>

theorem resolve_client_config_empty_is_unset:
  "resolve_client_config env =
     resolve_client_config (\<lambda>x. if env x = Some [] then None else env x)"
  by (simp add: resolve_client_config_def js_or_def split: option.splits)

end
