(* ===== verification/App.thy ===== *)
theory App
  imports Config
begin

text \<open>
  The publisher and the runner of \<open>src/app-exemple/index.js\<close>:
  \<open>sendMessage\<close> (lines 14--22) builds a \<open>SendMessageCommand\<close>, awaits
  \<open>client.send\<close> and logs the receipt; \<open>main\<close> (lines 24--36) checks
  \<open>queueUrl\<close>, exits with status 1 when it is falsy, and otherwise logs the
  target and awaits the two sends in order; the entry point (line 38) runs
  \<open>main().catch(console.error)\<close>.  The module-level \<open>client\<close> and
  \<open>queueUrl\<close> that the functions close over are explicit parameters.
\<close>

definition message_1 :: string where
  "message_1 = ''Hello from Node.js app - Message 1''"

definition message_2 :: string where
  "message_2 = ''Hello from Node.js app - Message 2''"

definition missing_url_msg :: string where
  "missing_url_msg = ''QUEUE_URL environment variable is required''"

definition all_sent_msg :: string where
  "all_sent_msg = ''All messages sent successfully''"

definition sending_line :: "string option \<Rightarrow> string" where
  "sending_line qurl = ''Sending messages to queue: '' @ js_template qurl"

definition sent_line :: "string \<Rightarrow> string option \<Rightarrow> string" where
  "sent_line message mid = ''Message sent: '' @ message @ '' - MessageId: '' @ js_template mid"

definition send_command :: "string option \<Rightarrow> string \<Rightarrow> send_message_input" where
  "send_command qurl message = \<lparr>QueueUrl = qurl, MessageBody = message\<rparr>"

definition sendMessage ::
  "sqs_client_config \<Rightarrow> string option \<Rightarrow> string \<Rightarrow> (runtime, sqs_fault, unit) js" where
  "sendMessage client qurl message =
     js_bind (client_send client (send_command qurl message))
       (\<lambda>response. console_log (sent_line message (MessageId response)))"

definition main :: "sqs_client_config \<Rightarrow> string option \<Rightarrow> (runtime, sqs_fault, unit) js" where
  "main client qurl =
     js_bind
       (if \<not> js_truthy qurl
        then js_bind (console_error missing_url_msg) (\<lambda>_. process_exit 1)
        else js_return ())
       (\<lambda>_. js_bind (console_log (sending_line qurl))
       (\<lambda>_. js_bind (sendMessage client qurl message_1)
       (\<lambda>_. js_bind (sendMessage client qurl message_2)
       (\<lambda>_. console_log all_sent_msg))))"

text \<open>
  The entry point: the module-level constants, then \<open>main().catch(console.error)\<close>.
  A rejection is printed and the process then ends with status 0, as Node does
  when the event loop drains; \<open>process.exit(n)\<close> ends it with status \<open>n\<close>.
\<close>

definition exit_status :: "('e, 'a) outcome \<Rightarrow> int" where
  "exit_status r = (case r of ProcessExit n \<Rightarrow> n | _ \<Rightarrow> 0)"

definition run_script :: "process_env \<Rightarrow> runtime \<Rightarrow> int \<times> runtime" where
  "run_script env w =
     (let client = resolve_client_config env;
          qurl = queue_url env;
          (r, w') = js_catch (main client qurl) (\<lambda>err. console_error (render_fault err)) w
      in (exit_status r, w'))"

subsection \<open>Behaviour of the operations\<close>

lemmas app_defs = sending_line_def sent_line_def send_command_def

lemma sendMessage_Accepted [simp]:
  "broker w (length (sent w)) = Accepted mid \<Longrightarrow>
   sendMessage c q m w =
     (Return (), w\<lparr>sent := sent w @ [(c, send_command q m)],
                   console := console w @ [(Stdout, sent_line m mid)]\<rparr>)"
  by (simp add: sendMessage_def js_bind_apply)

lemma sendMessage_Rejected [simp]:
  "broker w (length (sent w)) = Rejected f \<Longrightarrow>
   sendMessage c q m w = (Raise f, w\<lparr>sent := sent w @ [(c, send_command q m)]\<rparr>)"
  by (simp add: sendMessage_def js_bind_apply)

lemma main_falsy:
  "\<not> js_truthy q \<Longrightarrow>
   main c q w = (ProcessExit 1, w\<lparr>console := console w @ [(Stderr, missing_url_msg)]\<rparr>)"
  by (simp add: main_def js_bind_apply)

lemma main_all_accepted:
  assumes "js_truthy q"
    and "broker w (length (sent w)) = Accepted m1"
    and "broker w (Suc (length (sent w))) = Accepted m2"
  shows "main c q w =
    (Return (), w\<lparr>console := console w @
        [(Stdout, sending_line q), (Stdout, sent_line message_1 m1),
         (Stdout, sent_line message_2 m2), (Stdout, all_sent_msg)],
      sent := sent w @ [(c, send_command q message_1), (c, send_command q message_2)]\<rparr>)"
  using assms by (simp add: main_def js_bind_apply)

lemma main_first_rejected:
  assumes "js_truthy q" and "broker w (length (sent w)) = Rejected f"
  shows "main c q w =
    (Raise f, w\<lparr>console := console w @ [(Stdout, sending_line q)],
                sent := sent w @ [(c, send_command q message_1)]\<rparr>)"
  using assms by (simp add: main_def js_bind_apply)

lemma main_second_rejected:
  assumes "js_truthy q"
    and "broker w (length (sent w)) = Accepted m1"
    and "broker w (Suc (length (sent w))) = Rejected f"
  shows "main c q w =
    (Raise f, w\<lparr>console := console w @ [(Stdout, sending_line q), (Stdout, sent_line message_1 m1)],
                sent := sent w @ [(c, send_command q message_1), (c, send_command q message_2)]\<rparr>)"
  using assms by (simp add: main_def js_bind_apply)

lemma run_script_main:
  "run_script env w =
     (case js_catch (main (resolve_client_config env) (queue_url env))
             (\<lambda>err. console_error (render_fault err)) w of
        (r, w') \<Rightarrow> (exit_status r, w'))"
  by (simp add: run_script_def Let_def)

lemma exit_status_simps [simp]:
  "exit_status (Return a) = 0" "exit_status (Raise e) = 0" "exit_status (ProcessExit n) = n"
  by (simp_all add: exit_status_def)

text \<open>The four ways a run can go, by the queue URL and the first two answers.\<close>

lemma run_script_cases:
  obtains (missing) "\<not> js_truthy (queue_url env)"
  | (first_rejected) f where "js_truthy (queue_url env)"
      "broker w (length (sent w)) = Rejected f"
  | (second_rejected) m1 f where "js_truthy (queue_url env)"
      "broker w (length (sent w)) = Accepted m1"
      "broker w (Suc (length (sent w))) = Rejected f"
  | (accepted) m1 m2 where "js_truthy (queue_url env)"
      "broker w (length (sent w)) = Accepted m1"
      "broker w (Suc (length (sent w))) = Accepted m2"
  by (cases "broker w (length (sent w))"; cases "broker w (Suc (length (sent w)))") blast+

subsection \<open>The runs of the script\<close>

text \<open>
  C1. When \<open>QUEUE_URL\<close> is unset or empty, the script prints the
  missing-configuration message on standard error, exits with status 1 and
  issues no request: the runtime changes in its console only.
\<close>

theorem run_script_missing_queue_url:
  assumes "\<not> js_truthy (queue_url env)"
  shows "run_script env w =
           (1, w\<lparr>console := console w @ [(Stderr, missing_url_msg)]\<rparr>)"
  using assms by (simp add: run_script_main main_falsy)

theorem run_script_missing_queue_url_witness:
  "\<not> js_truthy (queue_url (\<lambda>_. None)) \<and>
   run_script (\<lambda>_. None) \<lparr>console = [], sent = [], broker = (\<lambda>_. Accepted None)\<rparr> =
     (1, \<lparr>console = [(Stderr, ''QUEUE_URL environment variable is required'')],
          sent = [], broker = (\<lambda>_. Accepted None)\<rparr>)"
proof -
  have h: "\<not> js_truthy (queue_url (\<lambda>_. None))" by (simp add: queue_url_def)
  from run_script_missing_queue_url [OF h,
      of "\<lparr>console = [], sent = [], broker = (\<lambda>_. Accepted None)\<rparr>"] h
  show ?thesis by (simp add: missing_url_msg_def)
qed

text \<open>
  C2. With a queue URL and a broker that accepts both messages, the script
  sends message 1 and then message 2 to that queue with the resolved client,
  logs the target, one receipt line per message with the broker's
  \<open>MessageId\<close>, and the completion line, and exits with status 0.
\<close>

theorem run_script_all_accepted:
  assumes "js_truthy (queue_url env)"
    and "broker w (length (sent w)) = Accepted m1"
    and "broker w (Suc (length (sent w))) = Accepted m2"
  shows "run_script env w =
    (0, w\<lparr>console := console w @
          [(Stdout, sending_line (queue_url env)), (Stdout, sent_line message_1 m1),
           (Stdout, sent_line message_2 m2), (Stdout, all_sent_msg)],
        sent := sent w @
          [(resolve_client_config env, send_command (queue_url env) message_1),
           (resolve_client_config env, send_command (queue_url env) message_2)]\<rparr>)"
  using assms by (simp add: run_script_main main_all_accepted)

theorem run_script_all_accepted_witness:
  "let env = (\<lambda>x. if x = ''QUEUE_URL'' then Some ''https://broker.example/q1'' else None);
       w = \<lparr>console = [], sent = [],
            broker = (\<lambda>n. if n = 0 then Accepted (Some ''R1'') else Accepted (Some ''R2''))\<rparr>
   in js_truthy (queue_url env) \<and>
      broker w (length (sent w)) = Accepted (Some ''R1'') \<and>
      broker w (Suc (length (sent w))) = Accepted (Some ''R2'') \<and>
      map snd (console (snd (run_script env w))) =
        [''Sending messages to queue: https://broker.example/q1'',
         ''Message sent: Hello from Node.js app - Message 1 - MessageId: R1'',
         ''Message sent: Hello from Node.js app - Message 2 - MessageId: R2'',
         ''All messages sent successfully''] \<and>
      fst (run_script env w) = 0"
proof -
  define env :: process_env where
    "env = (\<lambda>x. if x = ''QUEUE_URL'' then Some ''https://broker.example/q1'' else None)"
  define w :: runtime where
    "w = \<lparr>console = [], sent = [],
          broker = (\<lambda>n. if n = 0 then Accepted (Some ''R1'') else Accepted (Some ''R2''))\<rparr>"
  have h1: "js_truthy (queue_url env)" by (simp add: env_def queue_url_def)
  have h2: "broker w (length (sent w)) = Accepted (Some ''R1'')" by (simp add: w_def)
  have h3: "broker w (Suc (length (sent w))) = Accepted (Some ''R2'')" by (simp add: w_def)
  from run_script_all_accepted [OF h1 h2 h3] h1 h2 h3 show ?thesis
    unfolding Let_def env_def [symmetric] w_def [symmetric]
    by (simp add: app_defs message_1_def message_2_def all_sent_msg_def env_def queue_url_def w_def)
qed

text \<open>
  C3. Fail-fast: when the broker rejects the first message, the script issues
  that one request and no other, prints the rejection on standard error through
  the top-level \<open>catch\<close>, never prints a receipt or the completion line,
  and exits with status 0.
\<close>

theorem run_script_first_rejected:
  assumes "js_truthy (queue_url env)"
    and "broker w (length (sent w)) = Rejected f"
  shows "run_script env w =
    (0, w\<lparr>console := console w @
          [(Stdout, sending_line (queue_url env)), (Stderr, render_fault f)],
        sent := sent w @ [(resolve_client_config env, send_command (queue_url env) message_1)]\<rparr>)"
  using assms by (simp add: run_script_main main_first_rejected)

theorem run_script_first_rejected_witness:
  "let env = (\<lambda>x. if x = ''QUEUE_URL'' then Some ''q'' else None);
       w = \<lparr>console = [], sent = [], broker = (\<lambda>_. Rejected QueueDoesNotExist)\<rparr>
   in js_truthy (queue_url env) \<and>
      broker w (length (sent w)) = Rejected QueueDoesNotExist \<and>
      length (sent (snd (run_script env w))) = 1 \<and>
      fst (run_script env w) = 0"
proof -
  define env :: process_env where "env = (\<lambda>x. if x = ''QUEUE_URL'' then Some ''q'' else None)"
  define w :: runtime where
    "w = \<lparr>console = [], sent = [], broker = (\<lambda>_. Rejected QueueDoesNotExist)\<rparr>"
  have h1: "js_truthy (queue_url env)" by (simp add: env_def queue_url_def)
  have h2: "broker w (length (sent w)) = Rejected QueueDoesNotExist" by (simp add: w_def)
  from run_script_first_rejected [OF h1 h2] h1 h2 show ?thesis
    unfolding Let_def env_def [symmetric] w_def [symmetric]
    by (simp add: w_def)
qed

text \<open>
  C4. When the broker accepts the first message and rejects the second, the
  script logs the first receipt, has issued exactly the two requests in order,
  prints the rejection on standard error, never prints the completion line, and
  exits with status 0.
\<close>

theorem run_script_second_rejected:
  assumes "js_truthy (queue_url env)"
    and "broker w (length (sent w)) = Accepted m1"
    and "broker w (Suc (length (sent w))) = Rejected f"
  shows "run_script env w =
    (0, w\<lparr>console := console w @
          [(Stdout, sending_line (queue_url env)), (Stdout, sent_line message_1 m1),
           (Stderr, render_fault f)],
        sent := sent w @
          [(resolve_client_config env, send_command (queue_url env) message_1),
           (resolve_client_config env, send_command (queue_url env) message_2)]\<rparr>)"
  using assms by (simp add: run_script_main main_second_rejected)

theorem run_script_second_rejected_witness:
  "let env = (\<lambda>x. if x = ''QUEUE_URL'' then Some ''q'' else None);
       w = \<lparr>console = [], sent = [],
            broker = (\<lambda>n. if n = 0 then Accepted (Some ''R1'') else Rejected NetworkingError)\<rparr>
   in js_truthy (queue_url env) \<and>
      broker w (length (sent w)) = Accepted (Some ''R1'') \<and>
      broker w (Suc (length (sent w))) = Rejected NetworkingError \<and>
      length (sent (snd (run_script env w))) = 2 \<and>
      fst (run_script env w) = 0"
proof -
  define env :: process_env where "env = (\<lambda>x. if x = ''QUEUE_URL'' then Some ''q'' else None)"
  define w :: runtime where
    "w = \<lparr>console = [], sent = [],
          broker = (\<lambda>n. if n = 0 then Accepted (Some ''R1'') else Rejected NetworkingError)\<rparr>"
  have h1: "js_truthy (queue_url env)" by (simp add: env_def queue_url_def)
  have h2: "broker w (length (sent w)) = Accepted (Some ''R1'')" by (simp add: w_def)
  have h3: "broker w (Suc (length (sent w))) = Rejected NetworkingError" by (simp add: w_def)
  from run_script_second_rejected [OF h1 h2 h3] h1 h2 h3 show ?thesis
    unfolding Let_def env_def [symmetric] w_def [symmetric]
    by (simp add: w_def)
qed

end
