(* ===== verification/Runner.thy ===== *)
theory Runner
  imports App
begin

text \<open>
  The runner of the specification (section 4.3) over any finite list of
  messages, and the publishing contract it must meet.  \<open>send_all\<close> awaits
  \<open>sendMessage\<close> for each message in order, which is what lines 32--33 of
  \<open>src/app-exemple/index.js\<close> do for the two fixed messages;
  \<open>main_runner\<close> is \<open>main\<close> with the message list as a parameter.
  \<open>publish_spec\<close> is the abstract contract: given the broker's answers,
  the receipts of the accepted prefix and the first rejection, if any.
\<close>

primrec send_all ::
  "sqs_client_config \<Rightarrow> string option \<Rightarrow> string list \<Rightarrow> (runtime, sqs_fault, unit) js" where
  "send_all c q [] = js_return ()"
| "send_all c q (m # ms) = js_bind (sendMessage c q m) (\<lambda>_. send_all c q ms)"

definition main_runner ::
  "sqs_client_config \<Rightarrow> string option \<Rightarrow> string list \<Rightarrow> (runtime, sqs_fault, unit) js" where
  "main_runner client qurl ms =
     js_bind
       (if \<not> js_truthy qurl
        then js_bind (console_error missing_url_msg) (\<lambda>_. process_exit 1)
        else js_return ())
       (\<lambda>_. js_bind (console_log (sending_line qurl))
       (\<lambda>_. js_bind (send_all client qurl ms)
       (\<lambda>_. console_log all_sent_msg)))"

text \<open>
  The entry point of line 38 over the generic runner: a rejection is printed by
  \<open>console.error\<close> and the process ends with the status of the outcome.
\<close>

definition run_runner ::
  "sqs_client_config \<Rightarrow> string option \<Rightarrow> string list \<Rightarrow> runtime \<Rightarrow> int \<times> runtime" where
  "run_runner client qurl ms w =
     (case js_catch (main_runner client qurl ms) (\<lambda>err. console_error (render_fault err)) w of
        (r, w') \<Rightarrow> (exit_status r, w'))"

text \<open>The contract: receipts \<open>(message, MessageId)\<close> and the first fault.\<close>

fun publish_spec ::
  "(nat \<Rightarrow> sqs_reply) \<Rightarrow> nat \<Rightarrow> string list \<Rightarrow> (string \<times> string option) list \<times> sqs_fault option" where
  "publish_spec b n [] = ([], None)"
| "publish_spec b n (m # ms) =
     (case b n of
        Rejected f \<Rightarrow> ([], Some f)
      | Accepted mid \<Rightarrow> apfst ((#) (m, mid)) (publish_spec b (Suc n) ms))"

text \<open>How many requests the contract issues: the receipts and the failed one.\<close>

definition attempted :: "(string \<times> string option) list \<times> sqs_fault option \<Rightarrow> nat" where
  "attempted p = length (fst p) + (case snd p of None \<Rightarrow> 0 | Some _ \<Rightarrow> 1)"

definition spec_outcome :: "sqs_fault option \<Rightarrow> (sqs_fault, unit) outcome" where
  "spec_outcome e = (case e of None \<Rightarrow> Return () | Some f \<Rightarrow> Raise f)"

text \<open>The runtime a run of the contract leaves behind, from the one it starts in.\<close>

definition spec_runtime ::
  "sqs_client_config \<Rightarrow> string option \<Rightarrow> string list \<Rightarrow> runtime \<Rightarrow> runtime" where
  "spec_runtime c q ms w =
     (let p = publish_spec (broker w) (length (sent w)) ms
      in w\<lparr>sent := sent w @ map (\<lambda>m. (c, send_command q m)) (take (attempted p) ms),
           console := console w @ map (\<lambda>(m, mid). (Stdout, sent_line m mid)) (fst p)\<rparr>)"

subsection \<open>The contract\<close>

lemma publish_spec_receipts_prefix:
  "map fst (fst (publish_spec b n ms)) = take (length (fst (publish_spec b n ms))) ms"
  by (induction ms arbitrary: n) (auto split: sqs_reply.splits)

lemma publish_spec_attempted_le: "attempted (publish_spec b n ms) \<le> length ms"
  by (induction ms arbitrary: n) (auto simp: attempted_def split: sqs_reply.splits option.splits)

lemma publish_spec_accepted:
  "i < length (fst (publish_spec b n ms)) \<Longrightarrow>
   b (n + i) = Accepted (snd (fst (publish_spec b n ms) ! i))"
proof (induction ms arbitrary: n i)
  case Nil
  then show ?case by simp
next
  case (Cons m ms)
  show ?case
  proof (cases "b n")
    case (Accepted mid)
    show ?thesis
    proof (cases i)
      case 0
      with Accepted show ?thesis by simp
    next
      case (Suc j)
      with Cons.prems Accepted have "j < length (fst (publish_spec b (Suc n) ms))"
        by simp
      from Cons.IH [OF this] Suc Accepted show ?thesis by simp
    qed
  next
    case (Rejected f)
    with Cons.prems show ?thesis by simp
  qed
qed

lemma publish_spec_rejected:
  "snd (publish_spec b n ms) = Some f \<Longrightarrow>
   b (n + length (fst (publish_spec b n ms))) = Rejected f \<and>
   length (fst (publish_spec b n ms)) < length ms"
proof (induction ms arbitrary: n)
  case Nil
  then show ?case by simp
next
  case (Cons m ms)
  then show ?case
    using Cons.IH [of "Suc n"] by (cases "b n") auto
qed

subsection \<open>The runner against the contract\<close>

lemma send_all_Cons_Accepted:
  "broker w (length (sent w)) = Accepted mid \<Longrightarrow>
   send_all c q (m # ms) w =
     send_all c q ms (w\<lparr>sent := sent w @ [(c, send_command q m)],
                        console := console w @ [(Stdout, sent_line m mid)]\<rparr>)"
  by simp

lemma send_all_Cons_Rejected:
  "broker w (length (sent w)) = Rejected f \<Longrightarrow>
   send_all c q (m # ms) w = (Raise f, w\<lparr>sent := sent w @ [(c, send_command q m)]\<rparr>)"
  by simp

lemma attempted_Cons [simp]: "attempted (apfst ((#) x) p) = Suc (attempted p)"
  by (simp add: attempted_def)

lemma attempted_rejected [simp]: "attempted ([], Some f) = 1"
  by (simp add: attempted_def)

lemma send_all_eq_spec:
  "send_all c q ms w =
     (spec_outcome (snd (publish_spec (broker w) (length (sent w)) ms)), spec_runtime c q ms w)"
proof (induction ms arbitrary: w)
  case Nil
  show ?case by (simp add: spec_outcome_def spec_runtime_def attempted_def)
next
  case (Cons m ms)
  show ?case
  proof (cases "broker w (length (sent w))")
    case (Accepted mid)
    let ?w' = "w\<lparr>sent := sent w @ [(c, send_command q m)],
                 console := console w @ [(Stdout, sent_line m mid)]\<rparr>"
    have "send_all c q (m # ms) w = send_all c q ms ?w'"
      using Accepted by (rule send_all_Cons_Accepted)
    also have "\<dots> = (spec_outcome (snd (publish_spec (broker w) (Suc (length (sent w))) ms)),
                     spec_runtime c q ms ?w')"
      using Cons.IH [of ?w'] by simp
    finally show ?thesis
      using Accepted by (simp add: spec_runtime_def Let_def)
  next
    case (Rejected f)
    then show ?thesis
      by (simp add: spec_outcome_def spec_runtime_def)
  qed
qed

lemma spec_outcome_Raise [simp]: "spec_outcome e = Raise f \<longleftrightarrow> e = Some f"
  by (simp add: spec_outcome_def split: option.splits)

lemma spec_outcome_Return [simp]: "spec_outcome e = Return a \<longleftrightarrow> e = None"
  by (simp add: spec_outcome_def split: option.splits)

lemma spec_runtime_broker [simp]: "broker (spec_runtime c q ms w) = broker w"
  by (simp add: spec_runtime_def Let_def)

lemma spec_runtime_sent:
  "sent (spec_runtime c q ms w) =
     sent w @ map (\<lambda>m. (c, send_command q m))
       (take (attempted (publish_spec (broker w) (length (sent w)) ms)) ms)"
  by (simp add: spec_runtime_def Let_def)

subsection \<open>Equivalence with the script's runner\<close>

lemma send_all_two:
  "js_bind (send_all c q [m1, m2]) k =
     js_bind (sendMessage c q m1) (\<lambda>_. js_bind (sendMessage c q m2) k)"
  by (simp add: js_bind_assoc js_bind_return_left)

lemma main_as_runner: "main c q = main_runner c q [message_1, message_2]"
  by (simp only: main_def main_runner_def send_all_two)

lemma main_runner_truthy:
  "js_truthy q \<Longrightarrow>
   main_runner c q ms w =
     (case send_all c q ms (w\<lparr>console := console w @ [(Stdout, sending_line q)]\<rparr>) of
        (Return a, w') \<Rightarrow> (Return (), w'\<lparr>console := console w' @ [(Stdout, all_sent_msg)]\<rparr>)
      | (Raise f, w') \<Rightarrow> (Raise f, w')
      | (ProcessExit n, w') \<Rightarrow> (ProcessExit n, w'))"
  by (simp add: main_runner_def js_bind_apply split: prod.splits outcome.splits)

lemma main_runner_falsy:
  "\<not> js_truthy q \<Longrightarrow>
   main_runner c q ms w = (ProcessExit 1, w\<lparr>console := console w @ [(Stderr, missing_url_msg)]\<rparr>)"
  by (simp add: main_runner_def js_bind_apply)

text \<open>
  C5. Refinement: running the runner over any list of messages gives exactly
  the contract's result: it completes normally when every call is accepted and
  rejects with the first fault otherwise; the requests issued are the messages
  of the accepted prefix and the failed one, in order, with the same client and
  queue URL; the console gets one receipt line per accepted message, in order.
\<close>

theorem send_all_refines_spec:
  "send_all c q ms w =
     (spec_outcome (snd (publish_spec (broker w) (length (sent w)) ms)), spec_runtime c q ms w)"
  by (rule send_all_eq_spec)

text \<open>
  C6. Fail-fast: when the runner rejects with a fault, the broker rejected the
  \<open>j\<close>-th call with that fault, accepted every call before it, and the
  requests issued are exactly the first \<open>j + 1\<close> messages: nothing after the
  failed one is sent.
\<close>

theorem send_all_fail_fast:
  assumes "send_all c q ms w = (Raise f, w')"
  shows "\<exists>j < length ms.
           sent w' = sent w @ map (\<lambda>m. (c, send_command q m)) (take (Suc j) ms) \<and>
           broker w (length (sent w) + j) = Rejected f \<and>
           (\<forall>i < j. \<exists>mid. broker w (length (sent w) + i) = Accepted mid)"
proof -
  let ?p = "publish_spec (broker w) (length (sent w)) ms"
  from assms have e: "snd ?p = Some f" and w': "w' = spec_runtime c q ms w"
    by (simp_all add: send_all_eq_spec)
  from publish_spec_rejected [OF e]
  have rej: "broker w (length (sent w) + length (fst ?p)) = Rejected f"
    and len: "length (fst ?p) < length ms" by simp_all
  have "attempted ?p = Suc (length (fst ?p))" using e by (simp add: attempted_def)
  then have "sent w' = sent w @ map (\<lambda>m. (c, send_command q m)) (take (Suc (length (fst ?p))) ms)"
    by (simp add: w' spec_runtime_sent)
  moreover have "\<forall>i < length (fst ?p). \<exists>mid. broker w (length (sent w) + i) = Accepted mid"
    using publish_spec_accepted by blast
  ultimately show ?thesis using rej len by blast
qed

theorem send_all_fail_fast_witness:
  "let c = resolve_client_config (\<lambda>_. None); q = Some ''q''; ms = [''a'', ''b'', ''c''];
       w = \<lparr>console = [], sent = [],
            broker = (\<lambda>n. if n = 1 then Rejected NetworkingError else Accepted None)\<rparr>
   in send_all c q ms w = (Raise NetworkingError, snd (send_all c q ms w)) \<and>
      (\<exists>j < length ms.
         sent (snd (send_all c q ms w)) = sent w @ map (\<lambda>m. (c, send_command q m)) (take (Suc j) ms) \<and>
         broker w (length (sent w) + j) = Rejected NetworkingError \<and>
         (\<forall>i < j. \<exists>mid. broker w (length (sent w) + i) = Accepted mid))"
proof -
  define c where "c = resolve_client_config (\<lambda>_. None)"
  define w :: runtime where
    "w = \<lparr>console = [], sent = [],
          broker = (\<lambda>n. if n = 1 then Rejected NetworkingError else Accepted None)\<rparr>"
  have h: "send_all c (Some ''q'') [''a'', ''b'', ''c''] w =
             (Raise NetworkingError, snd (send_all c (Some ''q'') [''a'', ''b'', ''c''] w))"
    by (simp add: w_def)
  from send_all_fail_fast [OF h] h show ?thesis
    unfolding Let_def c_def [symmetric] w_def [symmetric] by blast
qed

subsection \<open>The entry point over the runner\<close>

lemma run_script_as_runner:
  "run_script env w = run_runner (resolve_client_config env) (queue_url env) [message_1, message_2] w"
  by (simp add: run_script_main run_runner_def main_as_runner)

text \<open>The two shapes of a run of the entry point, read off the contract.\<close>

lemma run_runner_falsy:
  "\<not> js_truthy q \<Longrightarrow>
   run_runner c q ms w = (1, w\<lparr>console := console w @ [(Stderr, missing_url_msg)]\<rparr>)"
  by (simp add: run_runner_def main_runner_falsy)

lemma run_runner_truthy:
  assumes "js_truthy q"
  shows "run_runner c q ms w =
    (let w0 = w\<lparr>console := console w @ [(Stdout, sending_line q)]\<rparr>;
         p = publish_spec (broker w) (length (sent w)) ms;
         w' = spec_runtime c q ms w0
     in (0, w'\<lparr>console := console w' @
                 [case snd p of None \<Rightarrow> (Stdout, all_sent_msg)
                              | Some f \<Rightarrow> (Stderr, render_fault f)]\<rparr>))"
  using assms
  by (simp add: run_runner_def main_runner_truthy send_all_eq_spec spec_outcome_def Let_def
           split: option.splits)

end
