(* ===== verification/EventLoop.thy ===== *)
theory EventLoop
  imports Runner
begin

text \<open>
  A small-step model of the script's single async task on the event loop.
  Where the functional model of \<open>App\<close> and \<open>Runner\<close> treats
  \<open>await client.send(...)\<close> as one step, here a call is split at its
  suspension point: the request is issued and the task suspends
  (\<open>Awaiting i k\<close>: message \<open>i\<close>, the \<open>k\<close>-th request of the run), and a
  later step delivers the broker's answer, which resumes the task with the
  receipt log line (lines 20--21 of \<open>src/app-exemple/index.js\<close>) or rejects
  it into the top-level \<open>catch\<close> (line 38).  The other steps are the guard of
  \<open>main\<close> (lines 25--28), the target log line (line 30) and the completion
  line (line 35).  The configuration is a program counter and the runtime.
\<close>

datatype pc =
    Start
  | Sending nat
  | Awaiting nat nat
  | Finished int

type_synonym el_config = "pc \<times> runtime"

inductive el_step ::
  "sqs_client_config \<Rightarrow> string option \<Rightarrow> string list \<Rightarrow> el_config \<Rightarrow> el_config \<Rightarrow> bool"
  for c q ms where
  guard_exit:
    "\<not> js_truthy q \<Longrightarrow>
     el_step c q ms (Start, w) (Finished 1, w\<lparr>console := console w @ [(Stderr, missing_url_msg)]\<rparr>)"
| guard_pass:
    "js_truthy q \<Longrightarrow>
     el_step c q ms (Start, w) (Sending 0, w\<lparr>console := console w @ [(Stdout, sending_line q)]\<rparr>)"
| issue:
    "i < length ms \<Longrightarrow>
     el_step c q ms (Sending i, w)
       (Awaiting i (length (sent w)), w\<lparr>sent := sent w @ [(c, send_command q (ms ! i))]\<rparr>)"
| deliver_accepted:
    "broker w k = Accepted mid \<Longrightarrow>
     el_step c q ms (Awaiting i k, w)
       (Sending (Suc i), w\<lparr>console := console w @ [(Stdout, sent_line (ms ! i) mid)]\<rparr>)"
| deliver_rejected:
    "broker w k = Rejected f \<Longrightarrow>
     el_step c q ms (Awaiting i k, w)
       (Finished 0, w\<lparr>console := console w @ [(Stderr, render_fault f)]\<rparr>)"
| complete:
    "i = length ms \<Longrightarrow>
     el_step c q ms (Sending i, w) (Finished 0, w\<lparr>console := console w @ [(Stdout, all_sent_msg)]\<rparr>)"

code_pred el_step .

text \<open>
  The answers delivered so far: the guard of \<open>main\<close> passed, the first
  \<open>i\<close> requests of the run were
  accepted, and the console holds the target line and, in order, one receipt
  line per accepted request.
\<close>

definition el_delivered :: "string option \<Rightarrow> string list \<Rightarrow> runtime \<Rightarrow> nat \<Rightarrow> runtime \<Rightarrow> bool" where
  "el_delivered q ms w0 i w \<longleftrightarrow>
     (let rs = fst (publish_spec (broker w0) (length (sent w0)) (take i ms))
      in js_truthy q \<and> length rs = i \<and>
         console w = console w0 @ (Stdout, sending_line q) # map (\<lambda>(m, mid). (Stdout, sent_line m mid)) rs)"

text \<open>What a reachable configuration knows about the run started in \<open>w0\<close>.\<close>

fun el_inv ::
  "sqs_client_config \<Rightarrow> string option \<Rightarrow> string list \<Rightarrow> runtime \<Rightarrow> el_config \<Rightarrow> bool" where
  "el_inv c q ms w0 (Start, w) \<longleftrightarrow> w = w0"
| "el_inv c q ms w0 (Sending i, w) \<longleftrightarrow>
     i \<le> length ms \<and> broker w = broker w0 \<and>
     sent w = sent w0 @ map (\<lambda>m. (c, send_command q m)) (take i ms) \<and>
     el_delivered q ms w0 i w"
| "el_inv c q ms w0 (Awaiting i k, w) \<longleftrightarrow>
     i < length ms \<and> broker w = broker w0 \<and> k = length (sent w0) + i \<and>
     sent w = sent w0 @ map (\<lambda>m. (c, send_command q m)) (take (Suc i) ms) \<and>
     el_delivered q ms w0 i w"
| "el_inv c q ms w0 (Finished n, w) \<longleftrightarrow> broker w = broker w0"

text \<open>Steps still to take: two per message left, one for the guard, one to finish.\<close>

fun el_measure :: "string list \<Rightarrow> pc \<Rightarrow> nat" where
  "el_measure ms Start = 2 * length ms + 2"
| "el_measure ms (Sending i) = 2 * (length ms - i) + 1"
| "el_measure ms (Awaiting i k) = 2 * (length ms - i)"
| "el_measure ms (Finished n) = 0"

inductive_cases el_step_StartE [elim!]: "el_step c q ms (Start, w) t"
inductive_cases el_step_SendingE [elim!]: "el_step c q ms (Sending i, w) t"
inductive_cases el_step_AwaitingE [elim!]: "el_step c q ms (Awaiting i k, w) t"
inductive_cases el_step_FinishedE [elim!]: "el_step c q ms (Finished n, w) t"

lemma el_finished_final: "\<not> el_step c q ms (Finished n, w) t"
  by blast

lemma el_step_det: "el_step c q ms s t \<Longrightarrow> el_step c q ms s u \<Longrightarrow> u = t"
  by (induction rule: el_step.induct) auto

subsection \<open>The invariant of reachable configurations\<close>

lemma publish_spec_snoc_accepted:
  "length (fst (publish_spec b n xs)) = length xs \<Longrightarrow> b (n + length xs) = Accepted mid \<Longrightarrow>
   fst (publish_spec b n (xs @ [x])) = fst (publish_spec b n xs) @ [(x, mid)]"
proof (induction xs arbitrary: n)
  case Nil
  then show ?case by simp
next
  case (Cons y xs)
  then show ?case
    using Cons.IH [of "Suc n"] by (cases "b n") auto
qed

lemma el_delivered_Suc:
  assumes "el_delivered q ms w0 i w" and "i < length ms"
    and "broker w0 (length (sent w0) + i) = Accepted mid"
  shows "el_delivered q ms w0 (Suc i) (w\<lparr>console := console w @ [(Stdout, sent_line (ms ! i) mid)]\<rparr>)"
  using assms publish_spec_snoc_accepted [of "broker w0" "length (sent w0)" "take i ms" mid "ms ! i"]
  by (simp add: el_delivered_def Let_def take_Suc_conv_app_nth)

lemma el_step_inv:
  "el_step c q ms s t \<Longrightarrow> el_inv c q ms w0 s \<Longrightarrow> el_inv c q ms w0 t"
proof (induction rule: el_step.induct)
  case (deliver_accepted w k mid i)
  then show ?case by (simp add: el_delivered_Suc)
next
  case (guard_pass w)
  then show ?case by (simp add: el_delivered_def)
next
  case (issue i w)
  then show ?case by (simp add: take_Suc_conv_app_nth el_delivered_def)
qed simp_all

lemma el_reachable_inv:
  "(el_step c q ms)\<^sup>*\<^sup>* (Start, w0) s \<Longrightarrow> el_inv c q ms w0 s"
proof (induction rule: rtranclp_induct)
  case base
  then show ?case by simp
next
  case (step s t)
  then show ?case by (blast intro: el_step_inv)
qed

lemma el_step_measure:
  "el_step c q ms s t \<Longrightarrow> el_inv c q ms w0 s \<Longrightarrow> el_measure ms (fst t) < el_measure ms (fst s)"
  by (induction rule: el_step.induct) auto

subsection \<open>The small-step runs against the functional model\<close>

lemma send_all_never_exits: "fst (send_all c q ms w) \<noteq> ProcessExit n"
  by (simp add: send_all_eq_spec spec_outcome_def split: option.splits)

lemma el_send_all:
  assumes "i \<le> length ms"
  shows "case send_all c q (drop i ms) w of
           (Return _, w') \<Rightarrow> (el_step c q ms)\<^sup>*\<^sup>* (Sending i, w) (Sending (length ms), w')
         | (Raise f, w') \<Rightarrow> (el_step c q ms)\<^sup>*\<^sup>* (Sending i, w)
                             (Finished 0, w'\<lparr>console := console w' @ [(Stderr, render_fault f)]\<rparr>)
         | (ProcessExit n, w') \<Rightarrow> False"
  using assms
proof (induction "length ms - i" arbitrary: i w)
  case 0
  then have "i = length ms" by simp
  then show ?case by simp
next
  case (Suc d)
  then have i: "i < length ms" and d: "d = length ms - Suc i" by simp_all
  have drop: "drop i ms = ms ! i # drop (Suc i) ms"
    using i by (rule Cons_nth_drop_Suc [symmetric])
  let ?w1 = "w\<lparr>sent := sent w @ [(c, send_command q (ms ! i))]\<rparr>"
  have step1: "el_step c q ms (Sending i, w) (Awaiting i (length (sent w)), ?w1)"
    using i by (rule issue)
  show ?case
  proof (cases "broker w (length (sent w))")
    case (Accepted mid)
    let ?w2 = "w\<lparr>sent := sent w @ [(c, send_command q (ms ! i))],
                 console := console w @ [(Stdout, sent_line (ms ! i) mid)]\<rparr>"
    have step2: "el_step c q ms (Awaiting i (length (sent w)), ?w1) (Sending (Suc i), ?w2)"
      using deliver_accepted [where w = ?w1 and k = "length (sent w)" and mid = mid]
        Accepted by simp
    have eq: "send_all c q (drop i ms) w = send_all c q (drop (Suc i) ms) ?w2"
      using Accepted by (simp add: drop)
    from Suc.hyps(1) [of "Suc i" ?w2] d i
    have "case send_all c q (drop (Suc i) ms) ?w2 of
            (Return _, w') \<Rightarrow> (el_step c q ms)\<^sup>*\<^sup>* (Sending (Suc i), ?w2) (Sending (length ms), w')
          | (Raise f, w') \<Rightarrow> (el_step c q ms)\<^sup>*\<^sup>* (Sending (Suc i), ?w2)
                              (Finished 0, w'\<lparr>console := console w' @ [(Stderr, render_fault f)]\<rparr>)
          | (ProcessExit n, w') \<Rightarrow> False" by simp
    with step1 step2 show ?thesis
      unfolding eq by (auto split: prod.splits outcome.splits intro: converse_rtranclp_into_rtranclp)
  next
    case (Rejected f)
    have step2: "el_step c q ms (Awaiting i (length (sent w)), ?w1)
                   (Finished 0, ?w1\<lparr>console := console ?w1 @ [(Stderr, render_fault f)]\<rparr>)"
      using deliver_rejected [where w = ?w1 and k = "length (sent w)" and f = f]
        Rejected by simp
    from Rejected have "send_all c q (drop i ms) w = (Raise f, ?w1)" by (simp add: drop)
    with step1 step2 show ?thesis by (simp add: converse_rtranclp_into_rtranclp)
  qed
qed

lemma el_progress:
  assumes "el_inv c q ms w0 (p, w)" and "\<And>n. p \<noteq> Finished n"
  shows "\<exists>t. el_step c q ms (p, w) t"
proof (cases p)
  case Start
  then show ?thesis by (cases "js_truthy q") (auto intro: el_step.intros)
next
  case (Sending i)
  with assms(1) have "i = length ms \<or> i < length ms" by auto
  with Sending show ?thesis by (auto intro: el_step.issue el_step.complete)
next
  case (Awaiting i k)
  then show ?thesis by (cases "broker w k") (auto intro: el_step.intros)
next
  case (Finished n)
  with assms(2) show ?thesis by blast
qed

lemma el_reaches_final:
  "el_inv c q ms w0 s \<Longrightarrow> \<exists>n w'. (el_step c q ms)\<^sup>*\<^sup>* s (Finished n, w')"
proof (induction "el_measure ms (fst s)" arbitrary: s rule: less_induct)
  case less
  obtain p w where s: "s = (p, w)" by fastforce
  show ?case
  proof (cases "\<exists>n. p = Finished n")
    case True
    then show ?thesis using s by blast
  next
    case False
    with less.prems s obtain t where t: "el_step c q ms s t"
      using el_progress by blast
    with less.prems have "el_measure ms (fst t) < el_measure ms (fst s)" and "el_inv c q ms w0 t"
      by (simp_all add: el_step_measure el_step_inv)
    then obtain n w' where "(el_step c q ms)\<^sup>*\<^sup>* t (Finished n, w')"
      using less.hyps by blast
    with t show ?thesis by (blast intro: converse_rtranclp_into_rtranclp)
  qed
qed

lemma el_reaches_run_runner:
  "(el_step c q ms)\<^sup>*\<^sup>* (Start, w) (Finished (fst (run_runner c q ms w)), snd (run_runner c q ms w))"
proof (cases "js_truthy q")
  case False
  then show ?thesis by (auto simp: run_runner_falsy intro: el_step.guard_exit)
next
  case True
  let ?w0 = "w\<lparr>console := console w @ [(Stdout, sending_line q)]\<rparr>"
  have g: "el_step c q ms (Start, w) (Sending 0, ?w0)"
    using True by (rule guard_pass)
  obtain r w' where sa: "send_all c q ms ?w0 = (r, w')" by fastforce
  from el_send_all [of 0 ms c q ?w0] sa
  have sim: "case (r, w') of
           (Return _, w') \<Rightarrow> (el_step c q ms)\<^sup>*\<^sup>* (Sending 0, ?w0) (Sending (length ms), w')
         | (Raise f, w') \<Rightarrow> (el_step c q ms)\<^sup>*\<^sup>* (Sending 0, ?w0)
                             (Finished 0, w'\<lparr>console := console w' @ [(Stderr, render_fault f)]\<rparr>)
         | (ProcessExit n, w') \<Rightarrow> False" by simp
  have run: "run_runner c q ms w =
     (case (r, w') of
        (Return a, w') \<Rightarrow> (0, w'\<lparr>console := console w' @ [(Stdout, all_sent_msg)]\<rparr>)
      | (Raise f, w') \<Rightarrow> (0, w'\<lparr>console := console w' @ [(Stderr, render_fault f)]\<rparr>)
      | (ProcessExit n, w') \<Rightarrow> (n, w'))"
    using True sa by (simp add: run_runner_def main_runner_truthy split: outcome.splits)
  show ?thesis
  proof (cases r)
    case (Return a)
    have "el_step c q ms (Sending (length ms), w')
            (Finished 0, w'\<lparr>console := console w' @ [(Stdout, all_sent_msg)]\<rparr>)"
      by (rule complete) (rule refl)
    with g sim run Return show ?thesis by simp
  next
    case (Raise f)
    with g sim run show ?thesis by (simp add: converse_rtranclp_into_rtranclp)
  next
    case (ProcessExit n)
    with sim show ?thesis by simp
  qed
qed

subsection \<open>Properties of the event-loop model\<close>

text \<open>
  C11. At most one request is in flight, and requests are issued in order:
  whenever the task is suspended awaiting the answer to request \<open>k\<close> for
  message \<open>i\<close>, that request is the last one issued, exactly the first
  \<open>i + 1\<close> messages have been sent in list order, and the answers to the
  first \<open>i\<close> were delivered before it was issued: they were all accepted and
  their receipt lines are on the console, in order.
\<close>

theorem el_one_request_in_flight:
  assumes "(el_step c q ms)\<^sup>*\<^sup>* (Start, w0) (Awaiting i k, w)"
  shows "Suc k = length (sent w) \<and> i < length ms \<and>
         sent w = sent w0 @ map (\<lambda>m. (c, send_command q m)) (take (Suc i) ms) \<and>
         el_delivered q ms w0 i w"
proof -
  from el_reachable_inv [OF assms] have
    "i < length ms" "k = length (sent w0) + i"
    "sent w = sent w0 @ map (\<lambda>m. (c, send_command q m)) (take (Suc i) ms)"
    "el_delivered q ms w0 i w"
    by simp_all
  then show ?thesis by simp
qed

theorem el_one_request_in_flight_witness:
  "let c = resolve_client_config (\<lambda>_. None); q = Some ''q'';
       w0 = \<lparr>console = [], sent = [], broker = (\<lambda>_. Accepted None)\<rparr>;
       w = \<lparr>console = [(Stdout, sending_line q)], sent = [(c, send_command q ''a'')],
            broker = (\<lambda>_. Accepted None)\<rparr>
   in (el_step c q [''a''])\<^sup>*\<^sup>* (Start, w0) (Awaiting 0 0, w) \<and>
      Suc 0 = length (sent w) \<and> 0 < length [''a''] \<and>
      sent w = sent w0 @ map (\<lambda>m. (c, send_command q m)) (take (Suc 0) [''a'']) \<and>
      el_delivered q [''a''] w0 0 w"
proof -
  define c where "c = resolve_client_config (\<lambda>_. None)"
  define w0 :: runtime where "w0 = \<lparr>console = [], sent = [], broker = (\<lambda>_. Accepted None)\<rparr>"
  define w :: runtime where
    "w = \<lparr>console = [(Stdout, sending_line (Some ''q''))], sent = [(c, send_command (Some ''q'') ''a'')],
          broker = (\<lambda>_. Accepted None)\<rparr>"
  have s1: "el_step c (Some ''q'') [''a''] (Start, w0)
              (Sending 0, w0\<lparr>console := console w0 @ [(Stdout, sending_line (Some ''q''))]\<rparr>)"
    by (rule guard_pass) simp
  have s2: "el_step c (Some ''q'') [''a'']
              (Sending 0, w0\<lparr>console := console w0 @ [(Stdout, sending_line (Some ''q''))]\<rparr>)
              (Awaiting 0 0, w)"
    using issue [where c = c and q = "Some ''q''" and ms = "[''a'']" and i = 0
                   and w = "w0\<lparr>console := console w0 @ [(Stdout, sending_line (Some ''q''))]\<rparr>"]
    by (simp add: w0_def w_def)
  from s1 s2 have r: "(el_step c (Some ''q'') [''a''])\<^sup>*\<^sup>* (Start, w0) (Awaiting 0 0, w)"
    by (meson r_into_rtranclp converse_rtranclp_into_rtranclp)
  from el_one_request_in_flight [OF r] r show ?thesis
    unfolding Let_def c_def [symmetric] w0_def [symmetric] w_def [symmetric] by blast
qed

text \<open>
  C12. Termination: every step from a reachable configuration strictly
  decreases the number of steps left (two per unsent message, one for the guard,
  one to finish), so the task cannot run forever whatever the broker answers.
\<close>

theorem el_step_terminates:
  assumes "(el_step c q ms)\<^sup>*\<^sup>* (Start, w0) s" and "el_step c q ms s t"
  shows "el_measure ms (fst t) < el_measure ms (fst s)"
  using el_step_measure [OF assms(2) el_reachable_inv [OF assms(1)]] .

theorem el_step_terminates_witness:
  "let c = resolve_client_config (\<lambda>_. None); q = Some ''q'';
       w0 = \<lparr>console = [], sent = [], broker = (\<lambda>_. Accepted None)\<rparr>;
       t = (Sending 0, w0\<lparr>console := console w0 @ [(Stdout, sending_line q)]\<rparr>)
   in (el_step c q [''a''])\<^sup>*\<^sup>* (Start, w0) (Start, w0) \<and>
      el_step c q [''a''] (Start, w0) t \<and>
      el_measure [''a''] (fst t) < el_measure [''a''] (fst (Start, w0))"
proof -
  define c where "c = resolve_client_config (\<lambda>_. None)"
  define w0 :: runtime where "w0 = \<lparr>console = [], sent = [], broker = (\<lambda>_. Accepted None)\<rparr>"
  have r: "(el_step c (Some ''q'') [''a''])\<^sup>*\<^sup>* (Start, w0) (Start, w0)" by simp
  have s: "el_step c (Some ''q'') [''a''] (Start, w0)
             (Sending 0, w0\<lparr>console := console w0 @ [(Stdout, sending_line (Some ''q''))]\<rparr>)"
    by (rule guard_pass) simp
  from el_step_terminates [OF r s] r s show ?thesis
    unfolding Let_def c_def [symmetric] w0_def [symmetric] by blast
qed

text \<open>
  C13. Liveness: from every reachable configuration, for every broker
  behaviour, the task reaches a final configuration: the process always ends,
  with an exit status.
\<close>

theorem el_always_finishes:
  assumes "(el_step c q ms)\<^sup>*\<^sup>* (Start, w0) s"
  shows "\<exists>n w'. (el_step c q ms)\<^sup>*\<^sup>* s (Finished n, w')"
  using el_reaches_final [OF el_reachable_inv [OF assms]] .

theorem el_always_finishes_witness:
  "let c = resolve_client_config (\<lambda>_. None);
       w0 = \<lparr>console = [], sent = [], broker = (\<lambda>_. Rejected NetworkingError)\<rparr>
   in (el_step c (Some ''q'') [''a'', ''b''])\<^sup>*\<^sup>* (Start, w0) (Start, w0) \<and>
      (\<exists>n w'. (el_step c (Some ''q'') [''a'', ''b''])\<^sup>*\<^sup>* (Start, w0) (Finished n, w'))"
proof -
  define c where "c = resolve_client_config (\<lambda>_. None)"
  define w0 :: runtime where
    "w0 = \<lparr>console = [], sent = [], broker = (\<lambda>_. Rejected NetworkingError)\<rparr>"
  have r: "(el_step c (Some ''q'') [''a'', ''b''])\<^sup>*\<^sup>* (Start, w0) (Start, w0)" by simp
  from el_always_finishes [OF r] r show ?thesis
    unfolding Let_def c_def [symmetric] w0_def [symmetric] by blast
qed

end
