(* ===== verification/Receipts.thy ===== *)
theory Receipts
  imports Runner
begin

text \<open>
  Reading the receipt lines that \<open>sendMessage\<close> logs (line 21 of
  \<open>src/app-exemple/index.js\<close>): \<open>read_sent_line\<close> is a consumer of the
  log, not code of the script; given the message text it returns the text after
  \<open>MessageId: \<close>.  The lemmas show that the console of any run of the runner
  reads back as the receipts of the publishing contract, and where that reading
  is ambiguous.
\<close>

text \<open>
  A reader of the receipt lines of \<open>sendMessage\<close> (line 21): given the
  message text, the text after \<open>MessageId: \<close>, if the line is a receipt for it.
\<close>

definition read_sent_line :: "string \<Rightarrow> string \<Rightarrow> string option" where
  "read_sent_line message line =
     (let p = ''Message sent: '' @ message @ '' - MessageId: ''
      in if take (length p) line = p then Some (drop (length p) line) else None)"

section \<open>Reading back the receipts\<close>

lemma read_sent_line_sent_line [simp]:
  "read_sent_line m (sent_line m mid) = Some (js_template mid)"
  by (simp add: read_sent_line_def sent_line_def Let_def)

lemma send_all_new_console:
  "drop (length (console w)) (console (snd (send_all c q ms w))) =
     map (\<lambda>(m, mid). (Stdout, sent_line m mid)) (fst (publish_spec (broker w) (length (sent w)) ms))"
  by (simp add: send_all_eq_spec spec_runtime_def Let_def)

text \<open>
  C14. The receipt line does not determine the receipt: a response without a
  \<open>MessageId\<close> is logged exactly as one whose identifier is the string
  \<open>undefined\<close>.
\<close>

theorem sent_line_missing_id_ambiguous:
  "sent_line m None = sent_line m (Some ''undefined'')"
  by (simp add: sent_line_def)

text \<open>
  C15. The console output of the runner, over any message list and for any
  broker, is exactly one standard-output line per receipt of the contract, and
  reading each line with its message gives back that receipt's \<open>MessageId\<close>:
  the log reports the accepted prefix, in order, with the identifiers the broker
  returned.
\<close>

theorem send_all_console_receipts:
  "let p = publish_spec (broker w) (length (sent w)) ms;
       new = drop (length (console w)) (console (snd (send_all c q ms w)))
   in map fst new = replicate (length (fst p)) Stdout \<and>
      map (\<lambda>((m, mid), (s, l)). read_sent_line m l) (zip (fst p) new) =
        map (\<lambda>(m, mid). Some (js_template mid)) (fst p)"
  by (simp add: send_all_new_console Let_def zip_map2 map_replicate_const case_prod_beta
                comp_def zip_same_conv_map)

end
