(* ===== verification/Observation.thy ===== *)
theory Observation
  imports Runner
begin

text \<open>
  What a user of \<open>src/app-exemple/index.js\<close> observes of one run: the exit
  status, the bodies of the requests that reach the broker, in order, and the
  lines written to the console, in order.  \<open>script_spec\<close> is the abstract
  description of the script in these terms, built from the publishing contract
  \<open>publish_spec\<close>: a falsy queue URL gives status 1, no request and one error
  line; otherwise the target line, one receipt per accepted message, and either
  the completion line or the printed rejection, with status 0.  \<open>observe\<close> is
  the abstraction of a concrete run to an observation.
\<close>

record observation =
  obs_status :: int
  obs_bodies :: "string list"
  obs_out :: "(stream \<times> string) list"

definition script_spec ::
  "string option \<Rightarrow> (nat \<Rightarrow> sqs_reply) \<Rightarrow> nat \<Rightarrow> string list \<Rightarrow> observation" where
  "script_spec q b n ms =
     (if \<not> js_truthy q
      then \<lparr>obs_status = 1, obs_bodies = [], obs_out = [(Stderr, missing_url_msg)]\<rparr>
      else
        (let p = publish_spec b n ms
         in \<lparr>obs_status = 0, obs_bodies = take (attempted p) ms,
             obs_out = (Stdout, sending_line q) # map (\<lambda>(m, mid). (Stdout, sent_line m mid)) (fst p) @
                       [case snd p of None \<Rightarrow> (Stdout, all_sent_msg) | Some f \<Rightarrow> (Stderr, render_fault f)]\<rparr>))"

definition observe :: "runtime \<Rightarrow> int \<times> runtime \<Rightarrow> observation" where
  "observe w r =
     \<lparr>obs_status = fst r,
      obs_bodies = map (MessageBody \<circ> snd) (drop (length (sent w)) (sent (snd r))),
      obs_out = drop (length (console w)) (console (snd r))\<rparr>"

section \<open>The runner refines the abstract script\<close>

lemma run_runner_observed:
  "observe w (run_runner c q ms w) = script_spec q (broker w) (length (sent w)) ms"
proof (cases "js_truthy q")
  case False
  then show ?thesis by (simp add: run_runner_falsy observe_def script_spec_def)
next
  case True
  then show ?thesis
    by (simp add: run_runner_truthy observe_def script_spec_def spec_runtime_def Let_def
                  send_command_def comp_def)
qed

lemma publish_spec_receipts_le: "length (fst (publish_spec b n ms)) \<le> length ms"
  using publish_spec_attempted_le [of b n ms] by (simp add: attempted_def)

text \<open>
  C16. Refinement: the abstraction of every run of the script is the abstract
  script of the specification's runner, for every environment and every
  broker: status, requests and console output are the ones
  \<open>script_spec\<close> computes from the publishing contract.
\<close>

theorem run_script_refines_spec:
  "observe w (run_script env w) =
     script_spec (queue_url env) (broker w) (length (sent w)) [message_1, message_2]"
  by (simp add: run_script_as_runner run_runner_observed)

text \<open>
  C17. Shape of the output: a run of the runner over \<open>ms\<close> writes at least
  one line and at most \<open>length ms + 2\<close>, and every line but the last goes to
  standard output: an error is always the final line written.
\<close>

theorem run_runner_output_shape:
  "let out = obs_out (observe w (run_runner c q ms w))
   in out \<noteq> [] \<and> list_all (\<lambda>l. fst l = Stdout) (butlast out) \<and> length out \<le> length ms + 2"
proof -
  have "length (fst (publish_spec (broker w) (length (sent w)) ms)) \<le> length ms"
    by (rule publish_spec_receipts_le)
  then show ?thesis
    by (auto simp add: run_runner_observed script_spec_def Let_def butlast_append list_all_iff)
qed

end
