(* ===== verification/Trace.thy ===== *)
theory Trace
  imports EventLoop Observation "HOL-Library.Sublist"
begin

text \<open>
  The run of \<open>main\<close> as one ordered list of events.  The runtime keeps the
  requests (\<open>sent\<close>) and the console lines apart; a trace interleaves them in
  the order the event loop produces them, so that the order of a request
  against the log lines of \<open>src/app-exemple/index.js\<close> (lines 20--21, 26, 30,
  35, 38) can be stated.  \<open>el_trace\<close> extends \<open>el_step\<close> to runs that
  record the events of each step; \<open>script_trace\<close> is the trace the script
  is specified to produce, written by recursion over the messages and the
  broker's answers, independently of the runtime.
\<close>

datatype event =
    Ev_send send_message_input
  | Ev_log "stream \<times> string"

text \<open>The events of one step: the requests it appends to \<open>sent\<close>, then the
  lines it appends to the console (no step does both).\<close>

definition step_events :: "runtime \<Rightarrow> runtime \<Rightarrow> event list" where
  "step_events w w' =
     map (Ev_send \<circ> snd) (drop (length (sent w)) (sent w')) @
     map Ev_log (drop (length (console w)) (console w'))"

inductive el_trace ::
  "sqs_client_config \<Rightarrow> string option \<Rightarrow> string list \<Rightarrow> el_config \<Rightarrow> event list \<Rightarrow> el_config \<Rightarrow> bool"
  for c q ms where
  trace_nil: "el_trace c q ms s [] s"
| trace_snoc:
    "el_trace c q ms s evs u \<Longrightarrow> el_step c q ms u t \<Longrightarrow>
     el_trace c q ms s (evs @ step_events (snd u) (snd t)) t"

text \<open>The specified trace: the target line, then for each message its request
  and, on acceptance, its receipt line; a rejection ends it with the printed
  fault, the end of the list with the completion line.\<close>

fun publish_trace :: "string option \<Rightarrow> (nat \<Rightarrow> sqs_reply) \<Rightarrow> nat \<Rightarrow> string list \<Rightarrow> event list" where
  "publish_trace q b n [] = [Ev_log (Stdout, all_sent_msg)]"
| "publish_trace q b n (m # ms) =
     Ev_send (send_command q m) #
       (case b n of
          Rejected f \<Rightarrow> [Ev_log (Stderr, render_fault f)]
        | Accepted mid \<Rightarrow> Ev_log (Stdout, sent_line m mid) # publish_trace q b (Suc n) ms)"

definition script_trace :: "string option \<Rightarrow> (nat \<Rightarrow> sqs_reply) \<Rightarrow> nat \<Rightarrow> string list \<Rightarrow> event list" where
  "script_trace q b n ms =
     (if \<not> js_truthy q then [Ev_log (Stderr, missing_url_msg)]
      else Ev_log (Stdout, sending_line q) # publish_trace q b n ms)"

definition receipt_events :: "string option \<Rightarrow> (string \<times> string option) list \<Rightarrow> event list" where
  "receipt_events q rs =
     concat (map (\<lambda>(m, mid). [Ev_send (send_command q m), Ev_log (Stdout, sent_line m mid)]) rs)"

text \<open>The events recorded on the way to each program point.\<close>

fun trace_at :: "string option \<Rightarrow> (nat \<Rightarrow> sqs_reply) \<Rightarrow> nat \<Rightarrow> string list \<Rightarrow> pc \<Rightarrow> event list" where
  "trace_at q b n ms Start = []"
| "trace_at q b n ms (Sending i) =
     Ev_log (Stdout, sending_line q) # receipt_events q (fst (publish_spec b n (take i ms)))"
| "trace_at q b n ms (Awaiting i k) =
     Ev_log (Stdout, sending_line q) # receipt_events q (fst (publish_spec b n (take i ms))) @
     [Ev_send (send_command q (ms ! i))]"
| "trace_at q b n ms (Finished r) = script_trace q b n ms"

text \<open>Projections of a trace on the requests and on the console.\<close>

definition trace_requests :: "event list \<Rightarrow> send_message_input list" where
  "trace_requests evs = concat (map (\<lambda>e. case e of Ev_send r \<Rightarrow> [r] | Ev_log _ \<Rightarrow> []) evs)"

definition trace_console :: "event list \<Rightarrow> (stream \<times> string) list" where
  "trace_console evs = concat (map (\<lambda>e. case e of Ev_send _ \<Rightarrow> [] | Ev_log l \<Rightarrow> [l]) evs)"

section \<open>The specified trace along the contract\<close>

lemma receipt_events_append [simp]:
  "receipt_events q (xs @ ys) = receipt_events q xs @ receipt_events q ys"
  by (simp add: receipt_events_def)

lemma receipt_events_simps [simp]:
  "receipt_events q [] = []"
  "receipt_events q ((m, mid) # rs) =
     Ev_send (send_command q m) # Ev_log (Stdout, sent_line m mid) # receipt_events q rs"
  by (simp_all add: receipt_events_def)

text \<open>After an accepted prefix of \<open>i\<close> messages, the specified trace is the
  receipts of that prefix followed by the trace of the rest.\<close>

lemma publish_trace_split:
  "length (fst (publish_spec b n (take i ms))) = i \<Longrightarrow>
   publish_trace q b n ms =
     receipt_events q (fst (publish_spec b n (take i ms))) @ publish_trace q b (n + i) (drop i ms)"
proof (induction ms arbitrary: n i)
  case Nil
  then show ?case by simp
next
  case (Cons m ms)
  show ?case
  proof (cases i)
    case 0
    then show ?thesis by simp
  next
    case (Suc j)
    with Cons.prems obtain mid where b: "b n = Accepted mid"
      and j: "length (fst (publish_spec b (Suc n) (take j ms))) = j"
      by (cases "b n") auto
    from Cons.IH [OF j] b Suc show ?thesis by simp
  qed
qed

section \<open>Traces of the event loop\<close>

lemma el_trace_reach: "el_trace c q ms s evs t \<Longrightarrow> (el_step c q ms)\<^sup>*\<^sup>* s t"
  by (induction rule: el_trace.induct) (auto intro: rtranclp.rtrancl_into_rtrancl)

lemma el_reach_trace: "(el_step c q ms)\<^sup>*\<^sup>* s t \<Longrightarrow> \<exists>evs. el_trace c q ms s evs t"
proof (induction rule: rtranclp_induct)
  case base
  then show ?case by (blast intro: trace_nil)
next
  case (step u t)
  then show ?case by (blast intro: trace_snoc)
qed

lemma step_events_console [simp]:
  "step_events w (w\<lparr>console := console w @ ls\<rparr>) = map Ev_log ls"
  by (simp add: step_events_def)

lemma step_events_sent [simp]:
  "step_events w (w\<lparr>sent := sent w @ rs\<rparr>) = map (Ev_send \<circ> snd) rs"
  by (simp add: step_events_def)

text \<open>One step from a reachable configuration extends the recorded events
  to those of the next program point.\<close>

lemma el_step_trace_at:
  assumes "el_step c q ms u t" and "el_inv c q ms w0 u"
    and "evs = trace_at q (broker w0) (length (sent w0)) ms (fst u)"
  shows "evs @ step_events (snd u) (snd t) = trace_at q (broker w0) (length (sent w0)) ms (fst t)"
  using assms
proof (induction rule: el_step.induct)
  case (guard_exit w)
  then show ?case by (simp add: script_trace_def)
next
  case (guard_pass w)
  then show ?case by simp
next
  case (issue i w)
  then show ?case by (simp add: step_events_def)
next
  case (deliver_accepted w k mid i)
  then have "length (fst (publish_spec (broker w0) (length (sent w0)) (take i ms))) = i"
    by (simp add: el_delivered_def Let_def)
  with deliver_accepted
    publish_spec_snoc_accepted [of "broker w0" "length (sent w0)" "take i ms" mid "ms ! i"]
  show ?case by (simp add: take_Suc_conv_app_nth)
next
  case (deliver_rejected w k f i)
  then have "length (fst (publish_spec (broker w0) (length (sent w0)) (take i ms))) = i"
    and "js_truthy q"
    by (simp_all add: el_delivered_def Let_def)
  with deliver_rejected show ?case
    by (simp add: script_trace_def publish_trace_split Cons_nth_drop_Suc [symmetric])
next
  case (complete i w)
  then have "length (fst (publish_spec (broker w0) (length (sent w0)) (take i ms))) = i"
    and "js_truthy q"
    by (simp_all add: el_delivered_def Let_def)
  with complete show ?case
    using publish_trace_split [of "broker w0" "length (sent w0)" "length ms" ms q]
    by (simp add: script_trace_def)
qed

lemma el_trace_at:
  "el_trace c q ms s evs t \<Longrightarrow> s = (Start, w0) \<Longrightarrow>
   evs = trace_at q (broker w0) (length (sent w0)) ms (fst t)"
proof (induction rule: el_trace.induct)
  case (trace_nil s)
  then show ?case by simp
next
  case (trace_snoc s evs u t)
  from trace_snoc.hyps(1) trace_snoc.prems have "el_inv c q ms w0 u"
    by (blast intro: el_reachable_inv el_trace_reach)
  with trace_snoc show ?case by (blast intro: el_step_trace_at)
qed

lemma trace_at_prefix:
  assumes "el_inv c q ms w0 (p, w)"
  shows "prefix (trace_at q (broker w0) (length (sent w0)) ms p) (script_trace q (broker w0) (length (sent w0)) ms)"
proof (cases p)
  case (Sending i)
  with assms show ?thesis
    by (simp add: script_trace_def el_delivered_def Let_def publish_trace_split [of _ _ i])
next
  case (Awaiting i k)
  with assms have "drop i ms = ms ! i # drop (Suc i) ms"
    by (simp add: Cons_nth_drop_Suc)
  with Awaiting assms show ?thesis
    by (simp add: script_trace_def el_delivered_def Let_def publish_trace_split [of _ _ i])
qed simp_all

section \<open>Projections of a trace\<close>

lemma trace_requests_simps [simp]:
  "trace_requests [] = []"
  "trace_requests (evs @ evs') = trace_requests evs @ trace_requests evs'"
  "trace_requests (Ev_send r # evs) = r # trace_requests evs"
  "trace_requests (Ev_log l # evs) = trace_requests evs"
  "trace_requests (map Ev_send rs) = rs"
  "trace_requests (map Ev_log ls) = []"
  by (simp_all add: trace_requests_def comp_def)

lemma trace_console_simps [simp]:
  "trace_console [] = []"
  "trace_console (evs @ evs') = trace_console evs @ trace_console evs'"
  "trace_console (Ev_send r # evs) = trace_console evs"
  "trace_console (Ev_log l # evs) = l # trace_console evs"
  "trace_console (map Ev_send rs) = []"
  "trace_console (map Ev_log ls) = ls"
  by (simp_all add: trace_console_def comp_def)

lemma publish_trace_projections:
  "trace_console (publish_trace q b n ms) =
     map (\<lambda>(m, mid). (Stdout, sent_line m mid)) (fst (publish_spec b n ms)) @
     [case snd (publish_spec b n ms) of None \<Rightarrow> (Stdout, all_sent_msg) | Some f \<Rightarrow> (Stderr, render_fault f)]"
  "trace_requests (publish_trace q b n ms) =
     map (send_command q) (take (attempted (publish_spec b n ms)) ms)"
  by (induction ms arbitrary: n) (auto split: sqs_reply.splits)

text \<open>A concrete run: the guard passes and the first request is issued.\<close>

lemma el_trace_example:
  "el_trace (resolve_client_config (\<lambda>_. None)) (Some ''q'') [''a'']
     (Start, \<lparr>console = [], sent = [], broker = (\<lambda>_. Accepted None)\<rparr>)
     [Ev_log (Stdout, sending_line (Some ''q'')), Ev_send (send_command (Some ''q'') ''a'')]
     (Awaiting 0 0, \<lparr>console = [(Stdout, sending_line (Some ''q''))],
                     sent = [(resolve_client_config (\<lambda>_. None), send_command (Some ''q'') ''a'')],
                     broker = (\<lambda>_. Accepted None)\<rparr>)"
proof -
  define c where "c = resolve_client_config (\<lambda>_. None)"
  define w0 :: runtime where "w0 = \<lparr>console = [], sent = [], broker = (\<lambda>_. Accepted None)\<rparr>"
  define w1 where "w1 = w0\<lparr>console := console w0 @ [(Stdout, sending_line (Some ''q''))]\<rparr>"
  have s1: "el_step c (Some ''q'') [''a''] (Start, w0) (Sending 0, w1)"
    unfolding w1_def by (rule guard_pass) simp
  have s2: "el_step c (Some ''q'') [''a''] (Sending 0, w1)
              (Awaiting 0 (length (sent w1)), w1\<lparr>sent := sent w1 @ [(c, send_command (Some ''q'') ([''a''] ! 0))]\<rparr>)"
    by (rule issue) simp
  from trace_snoc [OF trace_snoc [OF trace_nil s1] s2] show ?thesis
    by (simp add: c_def [symmetric] w0_def w1_def step_events_def)
qed

section \<open>Properties of the traces\<close>

text \<open>
  C18. Ordering: every run of the task from \<open>main()\<close>, stopped at any point,
  has produced a prefix of the specified trace.  So the target line precedes
  every request, the request for a message is issued only after the receipt
  line of the message before it, no request follows a printed rejection, and
  the completion line comes last.
\<close>

theorem el_trace_prefix:
  assumes "el_trace c q ms (Start, w0) evs s"
  shows "prefix evs (script_trace q (broker w0) (length (sent w0)) ms)"
proof -
  obtain p w where s: "s = (p, w)" by fastforce
  from assms have "evs = trace_at q (broker w0) (length (sent w0)) ms (fst s)"
    by (rule el_trace_at) (rule refl)
  moreover from assms have "el_inv c q ms w0 s"
    by (blast intro: el_reachable_inv el_trace_reach)
  ultimately show ?thesis
    using trace_at_prefix [of c q ms w0 p w] s by simp
qed

theorem el_trace_prefix_witness:
  "el_trace (resolve_client_config (\<lambda>_. None)) (Some ''q'') [''a'']
     (Start, \<lparr>console = [], sent = [], broker = (\<lambda>_. Accepted None)\<rparr>)
     [Ev_log (Stdout, sending_line (Some ''q'')), Ev_send (send_command (Some ''q'') ''a'')]
     (Awaiting 0 0, \<lparr>console = [(Stdout, sending_line (Some ''q''))],
                     sent = [(resolve_client_config (\<lambda>_. None), send_command (Some ''q'') ''a'')],
                     broker = (\<lambda>_. Accepted None)\<rparr>) \<and>
   prefix [Ev_log (Stdout, sending_line (Some ''q'')), Ev_send (send_command (Some ''q'') ''a'')]
     (script_trace (Some ''q'') (\<lambda>_. Accepted None) 0 [''a''])"
  using el_trace_example el_trace_prefix [OF el_trace_example] by simp

text \<open>
  C19. The complete trace: the task reaches a final configuration with the
  events \<open>evs\<close> if and only if \<open>evs\<close> is the specified trace; every run
  finishes, and it finishes with exactly that trace.
\<close>

theorem el_trace_complete:
  "(\<exists>n w. el_trace c q ms (Start, w0) evs (Finished n, w)) \<longleftrightarrow>
   evs = script_trace q (broker w0) (length (sent w0)) ms"
proof
  assume "\<exists>n w. el_trace c q ms (Start, w0) evs (Finished n, w)"
  then obtain n w where "el_trace c q ms (Start, w0) evs (Finished n, w)" by blast
  from el_trace_at [OF this refl] show "evs = script_trace q (broker w0) (length (sent w0)) ms"
    by simp
next
  assume evs: "evs = script_trace q (broker w0) (length (sent w0)) ms"
  have "el_inv c q ms w0 (Start, w0)" by simp
  from el_reaches_final [OF this] obtain n w where
    "(el_step c q ms)\<^sup>*\<^sup>* (Start, w0) (Finished n, w)" by blast
  with el_reach_trace obtain evs' where tr: "el_trace c q ms (Start, w0) evs' (Finished n, w)"
    by blast
  from el_trace_at [OF tr refl] evs tr show "\<exists>n w. el_trace c q ms (Start, w0) evs (Finished n, w)"
    by auto
qed

text \<open>
  C20. The trace specification agrees with the functional entry point: the
  log lines of the specified trace are the console output of \<open>run_runner\<close>,
  and the bodies of its requests are the bodies \<open>run_runner\<close> sends, for
  every broker.
\<close>

theorem script_trace_observed:
  "trace_console (script_trace q (broker w) (length (sent w)) ms) = obs_out (observe w (run_runner c q ms w)) \<and>
   map MessageBody (trace_requests (script_trace q (broker w) (length (sent w)) ms)) =
     obs_bodies (observe w (run_runner c q ms w))"
  by (simp add: run_runner_observed script_trace_def script_spec_def publish_trace_projections
                Let_def comp_def send_command_def)

end
