(* ===== verification/Broker.thy ===== *)
theory Broker
  imports Runner App
begin

text \<open>
  The broker side of the publishing contract (section 4.2 of the
  specification): a message handed to the broker becomes visible to the
  queue's consumers once the broker acknowledges it.  In the runtime the
  \<open>k\<close>-th request of \<open>sent\<close> was answered by \<open>broker w k\<close>, so the queue's
  visible messages are the bodies of the accepted requests, in the order they
  were sent.
\<close>

fun visible_from ::
  "(nat \<Rightarrow> sqs_reply) \<Rightarrow> nat \<Rightarrow> (sqs_client_config \<times> send_message_input) list \<Rightarrow> string list" where
  "visible_from b k [] = []"
| "visible_from b k (r # rs) =
     (case b k of Accepted _ \<Rightarrow> [MessageBody (snd r)] | Rejected _ \<Rightarrow> []) @ visible_from b (Suc k) rs"

definition queue_visible :: "runtime \<Rightarrow> string list" where
  "queue_visible w = visible_from (broker w) 0 (sent w)"

section \<open>Visibility along the contract\<close>

lemma visible_from_append [simp]:
  "visible_from b k (xs @ ys) = visible_from b k xs @ visible_from b (k + length xs) ys"
  by (induction xs arbitrary: k) simp_all

text \<open>The requests the contract issues make exactly its accepted messages
  visible: a rejected request is sent but never visible.\<close>

lemma visible_from_publish_spec:
  "visible_from b n (map (\<lambda>m. (c, send_command q m)) (take (attempted (publish_spec b n ms)) ms)) =
     map fst (fst (publish_spec b n ms))"
  by (induction ms arbitrary: n) (auto simp: send_command_def split: sqs_reply.splits)

lemma run_runner_broker [simp]: "broker (snd (run_runner c q ms w)) = broker w"
  by (cases "js_truthy q") (simp_all add: run_runner_falsy run_runner_truthy spec_runtime_def Let_def)

lemma run_runner_queue_visible:
  "queue_visible (snd (run_runner c q ms w)) =
     queue_visible w @
       (if js_truthy q then map fst (fst (publish_spec (broker w) (length (sent w)) ms)) else [])"
proof (cases "js_truthy q")
  case False
  then show ?thesis by (simp add: run_runner_falsy queue_visible_def)
next
  case True
  then show ?thesis
    by (simp add: run_runner_truthy queue_visible_def spec_runtime_def Let_def visible_from_publish_spec)
qed

section \<open>Properties of the queue\<close>

text \<open>
  C21. Visibility: a run of the entry point makes visible to the queue's
  consumers exactly the messages whose receipts it logged, in order, and
  nothing else: a rejected message is sent but never visible, and a run
  without a queue URL changes nothing.
\<close>

theorem run_runner_visible:
  "queue_visible (snd (run_runner c q ms w)) =
     queue_visible w @
       (if js_truthy q then map fst (fst (publish_spec (broker w) (length (sent w)) ms)) else [])"
  by (rule run_runner_queue_visible)

end
