(* ===== verification/OpenLoop.thy ===== *)
theory OpenLoop
  imports EventLoop
begin

text \<open>
  The event loop of \<open>src/app-exemple/index.js\<close> against an open environment.
  In \<open>EventLoop\<close> the broker is a function fixed in the runtime, so the answer
  to the \<open>k\<close>-th request is decided in advance.  Here the answer is an input
  of the step that resumes the suspended \<open>await client.send(command)\<close>
  (line 20): \<open>el_ostep\<close> carries it as a label, and any answer may arrive,
  whatever was answered before.  \<open>el_orun\<close> collects the answers a run
  consumed.  The lemmas show the two models have the same runs: the broker
  function loses no behaviour of the environment.
\<close>

inductive el_ostep ::
  "sqs_client_config \<Rightarrow> string option \<Rightarrow> string list \<Rightarrow> el_config \<Rightarrow> sqs_reply option \<Rightarrow> el_config \<Rightarrow> bool"
  for c q ms where
  oguard_exit:
    "\<not> js_truthy q \<Longrightarrow>
     el_ostep c q ms (Start, w) None (Finished 1, w\<lparr>console := console w @ [(Stderr, missing_url_msg)]\<rparr>)"
| oguard_pass:
    "js_truthy q \<Longrightarrow>
     el_ostep c q ms (Start, w) None (Sending 0, w\<lparr>console := console w @ [(Stdout, sending_line q)]\<rparr>)"
| oissue:
    "i < length ms \<Longrightarrow>
     el_ostep c q ms (Sending i, w) None
       (Awaiting i (length (sent w)), w\<lparr>sent := sent w @ [(c, send_command q (ms ! i))]\<rparr>)"
| odeliver_accepted:
    "el_ostep c q ms (Awaiting i k, w) (Some (Accepted mid))
       (Sending (Suc i), w\<lparr>console := console w @ [(Stdout, sent_line (ms ! i) mid)]\<rparr>)"
| odeliver_rejected:
    "el_ostep c q ms (Awaiting i k, w) (Some (Rejected f))
       (Finished 0, w\<lparr>console := console w @ [(Stderr, render_fault f)]\<rparr>)"
| ocomplete:
    "i = length ms \<Longrightarrow>
     el_ostep c q ms (Sending i, w) None (Finished 0, w\<lparr>console := console w @ [(Stdout, all_sent_msg)]\<rparr>)"

text \<open>The answer a step consumes, as a list of at most one element.\<close>

definition consumed :: "sqs_reply option \<Rightarrow> sqs_reply list" where
  "consumed l = (case l of None \<Rightarrow> [] | Some r \<Rightarrow> [r])"

inductive el_orun ::
  "sqs_client_config \<Rightarrow> string option \<Rightarrow> string list \<Rightarrow> el_config \<Rightarrow> sqs_reply list \<Rightarrow> el_config \<Rightarrow> bool"
  for c q ms where
  orun_nil: "el_orun c q ms s [] s"
| orun_snoc:
    "el_orun c q ms s rs u \<Longrightarrow> el_ostep c q ms u l t \<Longrightarrow> el_orun c q ms s (rs @ consumed l) t"

text \<open>What a configuration reached from \<open>(Start, w0)\<close> after consuming the
  answers \<open>rs\<close> knows: one answer per delivered request, requests numbered
  from \<open>length (sent w0)\<close>.\<close>

fun ol_inv :: "string list \<Rightarrow> runtime \<Rightarrow> sqs_reply list \<Rightarrow> el_config \<Rightarrow> bool" where
  "ol_inv ms w0 rs (Start, w) \<longleftrightarrow> rs = [] \<and> sent w = sent w0"
| "ol_inv ms w0 rs (Sending i, w) \<longleftrightarrow>
     i \<le> length ms \<and> length rs = i \<and> length (sent w) = length (sent w0) + i"
| "ol_inv ms w0 rs (Awaiting i k, w) \<longleftrightarrow>
     i < length ms \<and> length rs = i \<and> k = length (sent w0) + i \<and> length (sent w) = Suc k"
| "ol_inv ms w0 rs (Finished n, w) \<longleftrightarrow>
     length rs \<le> length ms \<and> length (sent w) = length (sent w0) + length rs"

section \<open>Invariant of open runs\<close>

lemma consumed_simps [simp]: "consumed None = []" "consumed (Some r) = [r]"
  by (simp_all add: consumed_def)

lemma el_ostep_inv:
  "el_ostep c q ms u l t \<Longrightarrow> ol_inv ms w0 rs u \<Longrightarrow> ol_inv ms w0 (rs @ consumed l) t"
  by (induction rule: el_ostep.induct) auto

lemma el_orun_inv: "el_orun c q ms s rs t \<Longrightarrow> s = (Start, w0) \<Longrightarrow> ol_inv ms w0 rs t"
  by (induction rule: el_orun.induct) (auto intro: el_ostep_inv)

section \<open>The open and the closed event loop have the same steps\<close>

lemma broker_update_commute:
  "w\<lparr>console := x, broker := b\<rparr> = w\<lparr>broker := b, console := x\<rparr>"
  "w\<lparr>sent := y, broker := b\<rparr> = w\<lparr>broker := b, sent := y\<rparr>"
  by simp_all

text \<open>An open step whose answer agrees with the broker function \<open>b\<close> is a
  step of \<open>el_step\<close> in the runtime whose broker is \<open>b\<close>.\<close>

lemma el_ostep_closed:
  "el_ostep c q ms u l t \<Longrightarrow> (\<forall>i k r. fst u = Awaiting i k \<longrightarrow> l = Some r \<longrightarrow> b k = r) \<Longrightarrow>
   el_step c q ms (fst u, (snd u)\<lparr>broker := b\<rparr>) (fst t, (snd t)\<lparr>broker := b\<rparr>)"
proof (induction rule: el_ostep.induct)
  case (oguard_exit w)
  then show ?case using el_step.guard_exit [where c = c and q = q and ms = ms and w = "w\<lparr>broker := b\<rparr>"]
    by (simp add: broker_update_commute)
next
  case (oguard_pass w)
  then show ?case using el_step.guard_pass [where c = c and q = q and ms = ms and w = "w\<lparr>broker := b\<rparr>"]
    by (simp add: broker_update_commute)
next
  case (oissue i w)
  then show ?case using el_step.issue [where c = c and q = q and ms = ms and w = "w\<lparr>broker := b\<rparr>"]
    by (simp add: broker_update_commute)
next
  case (odeliver_accepted i k w mid)
  then show ?case using el_step.deliver_accepted [where c = c and q = q and ms = ms and w = "w\<lparr>broker := b\<rparr>" and k = k]
    by (simp add: broker_update_commute)
next
  case (odeliver_rejected i k w f)
  then show ?case using el_step.deliver_rejected [where c = c and q = q and ms = ms and w = "w\<lparr>broker := b\<rparr>" and k = k]
    by (simp add: broker_update_commute)
next
  case (ocomplete i w)
  then show ?case using el_step.complete [where c = c and q = q and ms = ms and w = "w\<lparr>broker := b\<rparr>"]
    by (simp add: broker_update_commute)
qed

text \<open>A closed step is the open step that consumes the broker's answer.\<close>

definition answer_of :: "el_config \<Rightarrow> sqs_reply option" where
  "answer_of s = (case fst s of Awaiting i k \<Rightarrow> Some (broker (snd s) k) | _ \<Rightarrow> None)"

lemma el_step_open: "el_step c q ms u t \<Longrightarrow> el_ostep c q ms u (answer_of u) t"
proof (induction rule: el_step.induct)
  case (deliver_accepted w k mid i)
  then show ?case using odeliver_accepted [of c q ms i k w mid] by (simp add: answer_of_def)
next
  case (deliver_rejected w k f i)
  then show ?case using odeliver_rejected [of c q ms i k w f] by (simp add: answer_of_def)
qed (simp_all add: answer_of_def el_ostep.intros)

section \<open>The open and the closed event loop have the same runs\<close>

lemma el_orun_closed:
  "el_orun c q ms s rs t \<Longrightarrow> s = (Start, w0) \<Longrightarrow>
   (\<forall>j < length rs. b (length (sent w0) + j) = rs ! j) \<Longrightarrow>
   (el_step c q ms)\<^sup>*\<^sup>* (Start, w0\<lparr>broker := b\<rparr>) (fst t, (snd t)\<lparr>broker := b\<rparr>)"
proof (induction rule: el_orun.induct)
  case (orun_nil s)
  then show ?case by simp
next
  case (orun_snoc s rs u l t)
  then have "(el_step c q ms)\<^sup>*\<^sup>* (Start, w0\<lparr>broker := b\<rparr>) (fst u, (snd u)\<lparr>broker := b\<rparr>)"
    by (simp add: nth_append)
  moreover from orun_snoc have "ol_inv ms w0 rs u" by (blast intro: el_orun_inv)
  with orun_snoc.prems(2) have "\<forall>i k r. fst u = Awaiting i k \<longrightarrow> l = Some r \<longrightarrow> b k = r"
    by (cases u) (auto dest: spec [of _ "length rs"])
  with orun_snoc.hyps(2) have "el_step c q ms (fst u, (snd u)\<lparr>broker := b\<rparr>) (fst t, (snd t)\<lparr>broker := b\<rparr>)"
    by (rule el_ostep_closed)
  ultimately show ?case by (rule rtranclp.rtrancl_into_rtrancl)
qed

lemma el_closed_orun:
  "(el_step c q ms)\<^sup>*\<^sup>* (Start, w0) t \<Longrightarrow>
   \<exists>rs. el_orun c q ms (Start, w0) rs t \<and> (\<forall>j < length rs. broker w0 (length (sent w0) + j) = rs ! j)"
proof (induction rule: rtranclp_induct)
  case base
  show ?case by (intro exI [of _ "[]"] conjI orun_nil) simp
next
  case (step u t)
  then obtain rs where run: "el_orun c q ms (Start, w0) rs u"
    and agree: "\<forall>j < length rs. broker w0 (length (sent w0) + j) = rs ! j" by blast
  from run have inv: "ol_inv ms w0 rs u" by (rule el_orun_inv) (rule refl)
  from step.hyps(1) have "el_inv c q ms w0 u" by (rule el_reachable_inv)
  obtain p w where u: "u = (p, w)" by fastforce
  with \<open>el_inv c q ms w0 u\<close> inv agree have "\<forall>j < length (rs @ consumed (answer_of u)).
      broker w0 (length (sent w0) + j) = (rs @ consumed (answer_of u)) ! j"
    by (cases p) (auto simp: answer_of_def nth_append less_Suc_eq)
  moreover have "el_orun c q ms (Start, w0) (rs @ consumed (answer_of u)) t"
    using run el_step_open [OF step.hyps(2)] by (rule orun_snoc)
  ultimately show ?case by blast
qed

text \<open>A concrete open run: the guard passes, message \<open>a\<close> is sent, and the
  environment accepts it.\<close>

lemma el_orun_example:
  "el_orun (resolve_client_config (\<lambda>_. None)) (Some ''q'') [''a'']
     (Start, \<lparr>console = [], sent = [], broker = (\<lambda>_. Rejected NetworkingError)\<rparr>)
     [Accepted (Some ''X'')]
     (Sending 1, \<lparr>console = [(Stdout, sending_line (Some ''q'')), (Stdout, sent_line ''a'' (Some ''X''))],
                  sent = [(resolve_client_config (\<lambda>_. None), send_command (Some ''q'') ''a'')],
                  broker = (\<lambda>_. Rejected NetworkingError)\<rparr>)"
proof -
  define c where "c = resolve_client_config (\<lambda>_. None)"
  define w0 :: runtime where "w0 = \<lparr>console = [], sent = [], broker = (\<lambda>_. Rejected NetworkingError)\<rparr>"
  define w1 where "w1 = w0\<lparr>console := console w0 @ [(Stdout, sending_line (Some ''q''))]\<rparr>"
  define w2 where "w2 = w1\<lparr>sent := sent w1 @ [(c, send_command (Some ''q'') ([''a''] ! 0))]\<rparr>"
  have s1: "el_ostep c (Some ''q'') [''a''] (Start, w0) None (Sending 0, w1)"
    unfolding w1_def by (rule oguard_pass) simp
  have s2: "el_ostep c (Some ''q'') [''a''] (Sending 0, w1) None (Awaiting 0 (length (sent w1)), w2)"
    unfolding w2_def by (rule oissue) simp
  have s3: "el_ostep c (Some ''q'') [''a''] (Awaiting 0 (length (sent w1)), w2) (Some (Accepted (Some ''X'')))
              (Sending (Suc 0), w2\<lparr>console := console w2 @ [(Stdout, sent_line ([''a''] ! 0) (Some ''X''))]\<rparr>)"
    by (rule odeliver_accepted)
  from orun_snoc [OF orun_snoc [OF orun_snoc [OF orun_nil s1] s2] s3] show ?thesis
    by (simp add: c_def [symmetric] w0_def w1_def w2_def)
qed

section \<open>Properties of the open event loop\<close>

text \<open>
  C22. Bounds on what the environment is asked: a run consumes at most one
  answer per message, and exactly one per delivered request: the requests
  issued are the answers consumed, plus at most the one still awaited.
\<close>

theorem el_open_answers_bounded:
  assumes "el_orun c q ms (Start, w0) rs (p, w)"
  shows "length rs \<le> length ms \<and> length (sent w0) + length rs \<le> length (sent w) \<and>
         length (sent w) \<le> length (sent w0) + length rs + 1"
proof -
  from assms have "ol_inv ms w0 rs (p, w)" by (rule el_orun_inv) (rule refl)
  then show ?thesis by (cases p) auto
qed

theorem el_open_answers_bounded_witness:
  "el_orun (resolve_client_config (\<lambda>_. None)) (Some ''q'') [''a'']
     (Start, \<lparr>console = [], sent = [], broker = (\<lambda>_. Rejected NetworkingError)\<rparr>)
     [Accepted (Some ''X'')]
     (Sending 1, \<lparr>console = [(Stdout, sending_line (Some ''q'')), (Stdout, sent_line ''a'' (Some ''X''))],
                  sent = [(resolve_client_config (\<lambda>_. None), send_command (Some ''q'') ''a'')],
                  broker = (\<lambda>_. Rejected NetworkingError)\<rparr>) \<and>
   length [Accepted (Some ''X'')] \<le> length [''a'']"
  using el_orun_example el_open_answers_bounded [OF el_orun_example] by simp

end
