(* ===== verification/Spec2Isabelle.thy ===== *)
theory Spec2Isabelle
  imports EventLoop Receipts Observation Trace Broker OpenLoop
begin

text \<open>
  \<^bold>\<open>A verification development of \<open>src/app-exemple/index.js\<close>.\<close>

  \<^bold>\<open>The program.\<close>  One Node.js script.  At module load it builds an
  \<open>SQSClient\<close> whose region, endpoint and credentials are each
  \<open>process.env.X || default\<close> (lines 3--10) and reads \<open>QUEUE_URL\<close>
  (line 12).  \<open>sendMessage\<close> (lines 14--22) builds a
  \<open>SendMessageCommand\<close> for the queue URL and the text, awaits
  \<open>client.send\<close> and logs the returned \<open>MessageId\<close>.  \<open>main\<close>
  (lines 24--36) prints an error and calls \<open>process.exit(1)\<close> when the
  queue URL is falsy, otherwise logs the target, awaits two sends in order and
  logs completion.  Line 38 runs \<open>main().catch(console.error)\<close>.  The
  parts interact through the module-level client and queue URL (closed over by
  the functions), through the console, and through the SDK's network calls.

  \<^bold>\<open>Theories.\<close>
  \<^item> \<open>Prelude\<close>: JavaScript values of \<open>process.env\<close> (\<open>string option\<close>,
    \<open>None\<close> for \<open>undefined\<close>) with truthiness, \<open>||\<close> and template
    interpolation; the console as an extensible record; async code as state
    transformers with an \<open>outcome\<close> (return, throw, \<open>process.exit\<close>), with
    \<open>js_bind\<close> for \<open>await\<close> in sequence and \<open>js_catch\<close> for
    \<open>.catch\<close>; their evaluation rules (collection \<open>js_simps\<close>) and monad laws.
  \<^item> \<open>Sqs\<close>: the SDK interface the script uses (client configuration,
    command input and output records) and \<open>client_send\<close>, modelled from the
    SDK's contract because the SDK is a library, not code of this repository:
    each call appends one request to \<open>sent\<close> and the answer is
    \<open>broker n\<close> for the \<open>n\<close>-th request, an arbitrary function, so that
    every theorem quantified over the runtime holds for every broker and
    transport behaviour (accept with or without \<open>MessageId\<close>, or one of
    the faults).  The runtime record extends the console with \<open>sent\<close> and
    \<open>broker\<close>.
  \<^item> \<open>Config\<close>: \<open>resolve_client_config\<close> (lines 3--10) and
    \<open>queue_url\<close> (line 12).  Lemmas: every resolved configuration is well
    formed (C9); an empty variable acts as an unset one (C10).
  \<^item> \<open>App\<close>: \<open>send_command\<close>, \<open>sendMessage\<close>, \<open>main\<close> and the
    entry point \<open>run_script\<close> with \<open>exit_status\<close>, statement by statement
    as in the source.  Lemmas: the behaviour of each operation on every branch
    (accepted, rejected, missing URL) and the four runs of the whole script
    (C1--C4).
  \<^item> \<open>Runner\<close>: the runner of the specification over any message list
    (\<open>send_all\<close>, \<open>main_runner\<close>, and \<open>run_runner\<close> for the entry
    point over it), its abstract contract
    \<open>publish_spec\<close> (receipts of the accepted prefix and the first fault),
    the lemma that \<open>main\<close> is the runner on the script's two messages
    (\<open>main_as_runner\<close>), the refinement of the contract by the runner (C5)
    and fail-fast (C6).
  \<^item> \<open>EventLoop\<close>: a small-step model of the same task on the event loop,
    the inductive relation \<open>el_step\<close> over a program point and the runtime,
    in which each \<open>await client.send\<close> is split into issuing the request
    (\<open>Awaiting i k\<close>) and delivering the broker's answer.  Lemmas:
    determinism, the invariant of reachable configurations by rule induction
    (requests issued so far, and \<open>el_delivered\<close>: the answers delivered so
    far were accepted and their receipt lines are on the console),
    a measure decreased by every step, progress, and the lemma
    \<open>el_reaches_run_runner\<close> that the run reaches the final state of the
    functional \<open>run_runner\<close>; at most one request is in flight (C11),
    every run terminates (C12) and always finishes (C13).
  \<^item> \<open>Receipts\<close>: \<open>read_sent_line\<close>, a reader of the receipt lines; the
    ambiguity of a missing \<open>MessageId\<close> (C14), and the
    runner's console read back as the contract's receipts (C15).
  \<^item> \<open>Observation\<close>: what a user observes of a run (status, request bodies,
    console lines), the abstract script \<open>script_spec\<close> built from the
    contract, the abstraction \<open>observe\<close>; every run of the script refines
    the abstract script (C16) and the output has a fixed shape, an error line
    always last (C17).
  \<^item> \<open>Trace\<close>: the run of the event-loop model as one ordered list of
    events (\<open>Ev_send\<close> for a request, \<open>Ev_log\<close> for a console line),
    recorded by \<open>el_trace\<close>, against \<open>script_trace\<close>, the specified
    trace written by recursion over the messages and the broker's answers.
    Every partial run has produced a prefix of the specified trace, which
    fixes the order of requests against log lines (C18); the complete runs
    produce exactly that trace (C19); the specified trace agrees with
    the console and requests of \<open>run_runner\<close> (C20).
  \<^item> \<open>Broker\<close>: the broker side of the contract (specification,
    section 4.2): \<open>queue_visible\<close>, the bodies of the requests of
    \<open>sent\<close> the broker accepted, in order.  A run of the entry point makes
    visible exactly the accepted prefix of its messages (C21).
  \<^item> \<open>OpenLoop\<close>: the event loop against an open environment,
    \<open>el_ostep\<close>, whose delivering steps take the broker's answer as an
    input label instead of reading the broker function; \<open>el_orun\<close> collects
    the answers a run consumed.  Two lemmas relate it to \<open>el_step\<close>: every
    open run is a run of \<open>el_step\<close> for any broker function giving those
    answers (\<open>el_orun_closed\<close>), and every closed run is an open run
    (\<open>el_closed_orun\<close>); they justify stating the properties of the
    event loop for an arbitrary broker function.  A run asks the environment for at most one
    answer per message and exactly one per delivered request (C22).
  \<^item> This theory: properties of the whole script that combine the components:
    the exit status (C7) and the requests a run can issue (C8).

  \<^bold>\<open>Choices.\<close>  Everything is total and executable: the script has no loop
  beyond the two fixed sends, and the generic runner recurses structurally on
  the message list, so no fuel or partial function is needed and every
  witness is evaluated by \<open>simp\<close>.  The event-loop relation needs no fuel
  either: \<open>el_measure\<close> (two steps per unsent message, one for the guard,
  one to finish) bounds every run, which is the termination theorem.
  Suspension at \<open>await\<close> is not observable in a single-task script
  (\<open>el_reaches_run_runner\<close> with the determinism of \<open>el_step\<close>), so
  the functional model treats \<open>await\<close> as sequencing.
  The exit status after the top-level \<open>catch\<close> is 0, as Node ends a
  process whose event loop drains; it is kept as an \<open>int\<close>.

  \<^bold>\<open>Not modelled.\<close>  The SDK's internals (HTTP, request signing, its own
  retries), the broker's queue beyond the visibility of accepted messages
  (receipt by consumers, deletion, visibility timeouts), and Node's full
  rendering of error objects (\<open>render_fault\<close> gives the first line).
  Line 1, the \<open>require\<close> of the SDK, is the import of that library and
  has no model of its own.  The client object is built at load time in the source; its
  construction has no observable effect and is the pure
  \<open>resolve_client_config\<close>.

  \<^bold>\<open>Plan for later work.\<close>  None of the script's code is left
  unmodelled; what remains outside is listed above.
\<close>

definition script_requests :: "process_env \<Rightarrow> nat \<Rightarrow> (sqs_client_config \<times> send_message_input) list" where
  "script_requests env k =
     map (\<lambda>m. (resolve_client_config env, send_command (queue_url env) m))
       (take k [message_1, message_2])"

section \<open>Shared lemmas\<close>

text \<open>Every run of the script ends in one of the four shapes of \<open>App\<close>.\<close>

lemma run_script_shapes:
  obtains (missing) "\<not> js_truthy (queue_url env)" "fst (run_script env w) = 1"
      "console (snd (run_script env w)) = console w @ [(Stderr, missing_url_msg)]"
      "sent (snd (run_script env w)) = sent w" "broker (snd (run_script env w)) = broker w"
  | (sent) k xs where "js_truthy (queue_url env)" "0 < k" "k \<le> 2" "fst (run_script env w) = 0"
      "console (snd (run_script env w)) = console w @ xs"
      "sent (snd (run_script env w)) = sent w @ script_requests env k"
      "broker (snd (run_script env w)) = broker w"
proof (cases rule: run_script_cases [where env = env and w = w])
  case missing
  then show ?thesis using that(1) by (simp add: run_script_main main_falsy)
next
  case (first_rejected f)
  then show ?thesis
    using that(2) [of 1 "[(Stdout, sending_line (queue_url env)), (Stderr, render_fault f)]"]
    by (simp add: run_script_main main_first_rejected script_requests_def)
next
  case (second_rejected m1 f)
  then show ?thesis
    using that(2) [of 2 "[(Stdout, sending_line (queue_url env)), (Stdout, sent_line message_1 m1),
                          (Stderr, render_fault f)]"]
    by (simp add: run_script_main main_second_rejected script_requests_def)
next
  case (accepted m1 m2)
  then show ?thesis
    using that(2) [of 2 "[(Stdout, sending_line (queue_url env)), (Stdout, sent_line message_1 m1),
                          (Stdout, sent_line message_2 m2), (Stdout, all_sent_msg)]"]
    by (simp add: run_script_main main_all_accepted script_requests_def)
qed

section \<open>Properties of the whole script\<close>

text \<open>
  C7. The exit status depends on the configuration alone: 1 when
  \<open>QUEUE_URL\<close> is unset or empty, 0 otherwise, whatever the broker answers;
  a failed publish does not give a non-zero status.
\<close>

theorem run_script_exit_status:
  "fst (run_script env w) = (if js_truthy (queue_url env) then 0 else 1)"
  by (cases rule: run_script_shapes [where env = env and w = w]) simp_all

text \<open>
  C8. The requests of a run: at most two, a prefix of message 1 then message 2,
  all with the client resolved from the environment and the configured queue
  URL, and none at all unless that URL is non-empty.
\<close>

theorem run_script_requests:
  "\<exists>k \<le> 2. sent (snd (run_script env w)) = sent w @ script_requests env k \<and>
            (0 < k \<longrightarrow> js_truthy (queue_url env))"
proof (cases rule: run_script_shapes [where env = env and w = w])
  case missing
  then show ?thesis by (intro exI [of _ 0]) (simp add: script_requests_def)
next
  case (sent k xs)
  then show ?thesis by (intro exI [of _ k]) simp
qed

theorem run_script_requests_witness:
  "let env = (\<lambda>x. if x = ''QUEUE_URL'' then Some ''q'' else None);
       w = \<lparr>console = [], sent = [], broker = (\<lambda>_. Accepted None)\<rparr>
   in js_truthy (queue_url env) \<and>
      (\<exists>k \<le> 2. 0 < k \<and> sent (snd (run_script env w)) = sent w @ script_requests env k)"
proof -
  define env :: process_env where "env = (\<lambda>x. if x = ''QUEUE_URL'' then Some ''q'' else None)"
  define w :: runtime where "w = \<lparr>console = [], sent = [], broker = (\<lambda>_. Accepted None)\<rparr>"
  have t: "js_truthy (queue_url env)" by (simp add: env_def queue_url_def)
  have ne: "sent (snd (run_script env w)) \<noteq> []"
    by (simp add: env_def w_def run_script_def queue_url_def sendMessage_def main_def Let_def
                  js_bind_apply client_send_apply)
  from run_script_requests [of env w] obtain k where
    k: "k \<le> 2" "sent (snd (run_script env w)) = sent w @ script_requests env k" by blast
  with ne have "0 < k" by (cases k) (simp_all add: w_def script_requests_def)
  with k t show ?thesis unfolding Let_def env_def [symmetric] w_def [symmetric] by blast
qed

end
